theory Spec2Isabelle
  imports Main
begin

section \<open>Data model\<close>

text \<open>
  The widget of \<^verbatim>\<open>src/unnamed/part_001\<close> (its first and most complete draft:
  persistence with a retention window, keyboard navigation, cached-state clicks), and
  the startup read of the draft in \<^verbatim>\<open>src/unnamed/part_000\<close>, which persists
  without a retention window.
  A JavaScript string is a list of characters, \<^verbatim>\<open>s.length\<close> is its length.
\<close>

type_synonym WikiOpenSearch = "string \<times> string list \<times> string list \<times> string list"

record Suggestion =
  title :: string
  description :: "string option"
  url :: "string option"

datatype SuggestState =
    is_Idle: Idle string "Suggestion list"
  | is_Loading: Loading string "Suggestion list"
  | is_Done: Done string "Suggestion list"
  | is_Error: Error string "Suggestion list" string

fun term_of :: "SuggestState \<Rightarrow> string" where
  "term_of (Idle t xs) = t"
| "term_of (Loading t xs) = t"
| "term_of (Done t xs) = t"
| "term_of (Error t xs m) = t"

fun items_of :: "SuggestState \<Rightarrow> Suggestion list" where
  "items_of (Idle t xs) = xs"
| "items_of (Loading t xs) = xs"
| "items_of (Done t xs) = xs"
| "items_of (Error t xs m) = xs"

section \<open>Converting a provider response\<close>

text \<open>
  \<^verbatim>\<open>toSuggestions\<close>: the loop \<^verbatim>\<open>for (let i = 0; i < n; i++) out.push(...)\<close> with
  \<^verbatim>\<open>n = Math.min(titles.length, descriptions.length, urls.length)\<close>. Every index the
  loop reads is below all three lengths.
\<close>

function toSuggestions_loop ::
  "string list \<Rightarrow> string list \<Rightarrow> string list \<Rightarrow> nat \<Rightarrow> Suggestion list \<Rightarrow> Suggestion list" where
  "toSuggestions_loop titles descriptions urls i out =
     (if i < min (length titles) (min (length descriptions) (length urls))
      then toSuggestions_loop titles descriptions urls (i + 1)
             (out @ [\<lparr>title = titles ! i, description = Some (descriptions ! i),
                      url = Some (urls ! i)\<rparr>])
      else out)"
  by pat_completeness auto
termination
  by (relation "measure (\<lambda>(titles, descriptions, urls, i, out).
        min (length titles) (min (length descriptions) (length urls)) - i)") auto

declare toSuggestions_loop.simps [simp del]

fun toSuggestions :: "WikiOpenSearch \<Rightarrow> Suggestion list" where
  "toSuggestions (queryEcho, titles, descriptions, urls) =
     toSuggestions_loop titles descriptions urls 0 []"

section \<open>Exceptions\<close>

text \<open>
  A thrown JavaScript value is either an \<^verbatim>\<open>Error\<close> instance, carried with its
  \<^verbatim>\<open>message\<close>, or any other value, carried with its \<^verbatim>\<open>String(e)\<close> rendering.
  Code that can throw returns \<open>thrown + 'a\<close>; \<^verbatim>\<open>try { ... } catch { ... }\<close> is
  \<open>try_catch\<close>, and statement sequencing is \<open>and_then\<close>.
\<close>

datatype thrown = ErrorObject string | OtherValue string

definition try_catch :: "thrown + 'a \<Rightarrow> (thrown \<Rightarrow> thrown + 'a) \<Rightarrow> thrown + 'a" where
  "try_catch body handler = (case body of Inl e \<Rightarrow> handler e | Inr v \<Rightarrow> Inr v)"

definition and_then :: "thrown + 'a \<Rightarrow> ('a \<Rightarrow> thrown + 'b) \<Rightarrow> thrown + 'b" where
  "and_then m f = (case m of Inl e \<Rightarrow> Inl e | Inr v \<Rightarrow> f v)"

section \<open>Session storage and JSON\<close>

text \<open>
  A text kept in \<^verbatim>\<open>sessionStorage\<close> is represented by the value \<^verbatim>\<open>JSON.parse\<close>
  gives for it, or by \<open>Malformed\<close> when \<^verbatim>\<open>JSON.parse\<close> throws on it (the empty
  text, which the \<^verbatim>\<open>!raw\<close> test rejects, is such a text: both ways lead to
  \<^verbatim>\<open>null\<close>). Numbers are integers (epoch milliseconds), where the arithmetic of
  doubles is exact. An array of suggestion objects, the only kind of array the widget
  writes, is \<open>JItems\<close>; \<open>JArr\<close> is an array given by its elements, whatever they
  are. An object is the list of its own properties.
\<close>

datatype jsvalue =
    JNull
  | JBool bool
  | JNum int
  | JStr string
  | JItems "Suggestion list"
  | JArr "jsvalue list"
  | JObj "(string \<times> jsvalue) list"

datatype stored = Malformed | Serialized jsvalue

datatype jsnum = NaN | Num int

record PersistedSuggestions =
  term_p :: string
  items_p :: "Suggestion list"
  savedAt :: int

definition STORAGE_KEY :: string where
  "STORAGE_KEY = ''wiki_autosuggest_v1''"

definition PERSIST_TTL_MS :: int where
  "PERSIST_TTL_MS = 30 * 60 * 1000"

text \<open>
  The backing store: each of its three operations either works on \<open>entries\<close> or throws
  (private mode, quota, storage access denied).
\<close>

record storage =
  entries :: "string \<Rightarrow> stored option"
  getFails :: bool
  setFails :: bool
  removeFails :: bool

definition getItem :: "storage \<Rightarrow> string \<Rightarrow> thrown + stored option" where
  "getItem st k =
     (if getFails st then Inl (ErrorObject ''SecurityError'') else Inr (entries st k))"

definition setItem :: "storage \<Rightarrow> string \<Rightarrow> stored \<Rightarrow> thrown + storage" where
  "setItem st k v =
     (if setFails st then Inl (ErrorObject ''QuotaExceededError'')
      else Inr (st\<lparr>entries := (entries st)(k := Some v)\<rparr>))"

definition removeItem :: "storage \<Rightarrow> string \<Rightarrow> thrown + storage" where
  "removeItem st k =
     (if removeFails st then Inl (ErrorObject ''SecurityError'')
      else Inr (st\<lparr>entries := (entries st)(k := None)\<rparr>))"

definition JSON_stringify :: "PersistedSuggestions \<Rightarrow> stored" where
  "JSON_stringify v =
     Serialized (JObj [(''term'', JStr (term_p v)), (''items'', JItems (items_p v)),
                       (''savedAt'', JNum (savedAt v))])"

definition JSON_parse :: "stored \<Rightarrow> thrown + jsvalue" where
  "JSON_parse raw =
     (case raw of Malformed \<Rightarrow> Inl (ErrorObject ''SyntaxError'') | Serialized v \<Rightarrow> Inr v)"

text \<open>\<^verbatim>\<open>!parsed\<close> is true on \<^verbatim>\<open>null\<close>, \<^verbatim>\<open>false\<close>, \<^verbatim>\<open>0\<close> and the empty string.\<close>

fun truthy :: "jsvalue \<Rightarrow> bool" where
  "truthy JNull = False"
| "truthy (JBool b) = b"
| "truthy (JNum n) = (n \<noteq> 0)"
| "truthy (JStr s) = (s \<noteq> [])"
| "truthy (JItems xs) = True"
| "truthy (JArr vs) = True"
| "truthy (JObj kvs) = True"

text \<open>
  \<^verbatim>\<open>parsed.term\<close>, \<^verbatim>\<open>parsed.items\<close>, \<^verbatim>\<open>parsed.savedAt\<close>: an own property of an
  object; \<open>None\<close> is \<^verbatim>\<open>undefined\<close>, which is also what these three names give on a
  number, a boolean, a string or an array.
\<close>

fun get_prop :: "jsvalue \<Rightarrow> string \<Rightarrow> jsvalue option" where
  "get_prop (JObj kvs) k = map_of kvs k"
| "get_prop v k = None"

fun typeof_string :: "jsvalue option \<Rightarrow> bool" where
  "typeof_string (Some (JStr s)) = True"
| "typeof_string v = False"

fun isArray :: "jsvalue option \<Rightarrow> bool" where
  "isArray (Some (JItems xs)) = True"
| "isArray (Some (JArr vs)) = True"
| "isArray v = False"

text \<open>
  Whether the conversion of a value to a string throws: a parsed object with an own
  property \<^verbatim>\<open>toString\<close>, which is not callable, has no way to a primitive value, and
  an array is joined from the strings of its elements.
\<close>

fun string_throws :: "jsvalue \<Rightarrow> bool" where
  "string_throws (JObj kvs) = (map_of kvs ''toString'' \<noteq> None)"
| "string_throws (JArr vs) = list_ex string_throws vs"
| "string_throws v = False"

text \<open>
  The operand conversion of \<^verbatim>\<open>Date.now() - parsed.savedAt\<close>. \<^verbatim>\<open>undefined\<close> gives
  \<^verbatim>\<open>NaN\<close>, \<^verbatim>\<open>null\<close> and \<^verbatim>\<open>false\<close> give 0, \<^verbatim>\<open>true\<close> gives 1. An array is first
  joined to a string: the empty array to the empty string, which gives 0, any other array
  of objects to a text that is no number. A parsed object gives \<^verbatim>\<open>"[object Object]"\<close>,
  hence \<^verbatim>\<open>NaN\<close>, unless it has an own property \<^verbatim>\<open>toString\<close>, which is not callable:
  then the conversion throws a \<^verbatim>\<open>TypeError\<close>. The conversion of a string to a number
  is the parameter \<open>s2n\<close>. An array of arbitrary elements gives what its joined string
  gives: 0 when empty, what its element gives when it has one (the string of a boolean
  is no number, \<^verbatim>\<open>null\<close> is joined as the empty string), and \<^verbatim>\<open>NaN\<close> when it has
  more, the elements being separated by commas.
\<close>

fun ToNumber :: "(string \<Rightarrow> jsnum) \<Rightarrow> jsvalue option \<Rightarrow> thrown + jsnum" where
  "ToNumber s2n None = Inr NaN"
| "ToNumber s2n (Some JNull) = Inr (Num 0)"
| "ToNumber s2n (Some (JBool b)) = Inr (Num (if b then 1 else 0))"
| "ToNumber s2n (Some (JNum n)) = Inr (Num n)"
| "ToNumber s2n (Some (JStr s)) = Inr (s2n s)"
| "ToNumber s2n (Some (JItems xs)) = Inr (if xs = [] then Num 0 else NaN)"
| "ToNumber s2n (Some (JArr [])) = Inr (Num 0)"
| "ToNumber s2n (Some (JArr [e])) =
     (if string_throws e then Inl (ErrorObject ''TypeError'')
      else case e of JBool b \<Rightarrow> Inr NaN | _ \<Rightarrow> ToNumber s2n (Some e))"
| "ToNumber s2n (Some (JArr (e # e' # vs))) =
     (if list_ex string_throws (e # e' # vs) then Inl (ErrorObject ''TypeError'') else Inr NaN)"
| "ToNumber s2n (Some (JObj kvs)) =
     (if map_of kvs ''toString'' \<noteq> None then Inl (ErrorObject ''TypeError'') else Inr NaN)"

fun js_minus :: "jsnum \<Rightarrow> jsnum \<Rightarrow> jsnum" where
  "js_minus (Num a) (Num b) = Num (a - b)"
| "js_minus a b = NaN"

fun js_greater :: "jsnum \<Rightarrow> jsnum \<Rightarrow> bool" where
  "js_greater (Num a) (Num b) = (a > b)"
| "js_greater a b = False"

definition savePersisted :: "PersistedSuggestions \<Rightarrow> storage \<Rightarrow> thrown + storage" where
  "savePersisted v st =
     try_catch (setItem st STORAGE_KEY (JSON_stringify v)) (\<lambda>e. Inr st)"

definition loadPersisted ::
  "(string \<Rightarrow> jsnum) \<Rightarrow> int \<Rightarrow> storage \<Rightarrow> thrown + (storage \<times> jsvalue option)" where
  "loadPersisted s2n now st =
     try_catch
       (and_then (getItem st STORAGE_KEY) (\<lambda>raw.
          case raw of
            None \<Rightarrow> Inr (st, None)
          | Some text \<Rightarrow>
              and_then (JSON_parse text) (\<lambda>parsed.
                if \<not> truthy parsed \<or> \<not> typeof_string (get_prop parsed ''term'')
                   \<or> \<not> isArray (get_prop parsed ''items'')
                then Inr (st, None)
                else and_then (ToNumber s2n (get_prop parsed ''savedAt'')) (\<lambda>saved.
                  if js_greater (js_minus (Num now) saved) (Num PERSIST_TTL_MS)
                  then and_then (removeItem st STORAGE_KEY) (\<lambda>st'. Inr (st', None))
                  else Inr (st, Some parsed)))))
       (\<lambda>e. Inr (st, None))"

definition clearPersisted :: "storage \<Rightarrow> thrown + storage" where
  "clearPersisted st = try_catch (removeItem st STORAGE_KEY) (\<lambda>e. Inr st)"

text \<open>
  The read of the draft in \<^verbatim>\<open>src/unnamed/part_000\<close> (lines 48 to 58): the same
  checks of \<open>term\<close> and \<open>items\<close>, no test of \<open>savedAt\<close>, nothing removed.
\<close>

definition loadPersisted_part_000 :: "storage \<Rightarrow> thrown + (storage \<times> jsvalue option)" where
  "loadPersisted_part_000 st =
     try_catch
       (and_then (getItem st STORAGE_KEY) (\<lambda>raw.
          case raw of
            None \<Rightarrow> Inr (st, None)
          | Some text \<Rightarrow>
              and_then (JSON_parse text) (\<lambda>parsed.
                if \<not> truthy parsed \<or> \<not> typeof_string (get_prop parsed ''term'')
                   \<or> \<not> isArray (get_prop parsed ''items'')
                then Inr (st, None)
                else Inr (st, Some parsed))))
       (\<lambda>e. Inr (st, None))"

text \<open>
  \<^verbatim>\<open>renderSuggestions\<close>, for what it can throw. The loop reads \<^verbatim>\<open>s.title\<close> of every
  item, which throws a \<^verbatim>\<open>TypeError\<close> on \<^verbatim>\<open>null\<close>, and hands the title and the url
  (unless absent or \<^verbatim>\<open>null\<close>) to the page, which converts them to strings. The items
  the widget builds itself have strings there, and rendering them throws nothing.
\<close>

fun element_throws :: "jsvalue \<Rightarrow> bool" where
  "element_throws JNull = True"
| "element_throws e =
     ((case get_prop e ''title'' of None \<Rightarrow> False | Some t \<Rightarrow> string_throws t)
      \<or> (case get_prop e ''url'' of None \<Rightarrow> False | Some u \<Rightarrow> string_throws u))"

definition renderSuggestions :: "jsvalue option \<Rightarrow> thrown + unit" where
  "renderSuggestions items =
     (case items of
        Some (JArr vs) \<Rightarrow>
          if list_ex element_throws vs then Inl (ErrorObject ''TypeError'') else Inr ()
      | _ \<Rightarrow> Inr ())"

text \<open>
  \<^verbatim>\<open>restored.term\<close> and \<^verbatim>\<open>restored.items\<close>, read from a value that
  \<open>loadPersisted\<close> returned: the first is then a string and the second an array.
  The state holds suggestions; an element of \<open>JArr\<close> is taken with the strings it has
  under \<open>title\<close>, \<open>description\<close> and \<open>url\<close>, which is the element itself when it
  is a suggestion object (what the page shows of an element of another shape is outside
  the data model: the declared type of the items is \<^verbatim>\<open>Suggestion[]\<close>).
\<close>

definition restored_term :: "jsvalue \<Rightarrow> string" where
  "restored_term r = (case get_prop r ''term'' of Some (JStr s) \<Rightarrow> s | _ \<Rightarrow> [])"

definition item_view :: "jsvalue \<Rightarrow> Suggestion" where
  "item_view e =
     \<lparr>title = (case get_prop e ''title'' of Some (JStr s) \<Rightarrow> s | _ \<Rightarrow> []),
      description = (case get_prop e ''description'' of Some (JStr s) \<Rightarrow> Some s | _ \<Rightarrow> None),
      url = (case get_prop e ''url'' of Some (JStr s) \<Rightarrow> Some s | _ \<Rightarrow> None)\<rparr>"

definition restored_items :: "jsvalue \<Rightarrow> Suggestion list" where
  "restored_items r =
     (case get_prop r ''items'' of
        Some (JItems xs) \<Rightarrow> xs
      | Some (JArr vs) \<Rightarrow> map item_view vs
      | _ \<Rightarrow> [])"

text \<open>
  The start of \<^verbatim>\<open>bindWikipediaAutosuggest\<close>, the same in both drafts: the initial
  state built from what the read returned.
\<close>

definition initialState_of :: "jsvalue option \<Rightarrow> SuggestState" where
  "initialState_of restored =
     (case restored of
        Some r \<Rightarrow> Done (restored_term r) (restored_items r)
      | None \<Rightarrow> Idle [] [])"

text \<open>
  The start of the draft in \<^verbatim>\<open>src/unnamed/part_000\<close> (lines 136 to 145): its read,
  the initial state, and the rendering of the restored items.
\<close>

definition initialState_part_000 :: "storage \<Rightarrow> thrown + SuggestState" where
  "initialState_part_000 st =
     and_then (loadPersisted_part_000 st) (\<lambda>(st1, restored).
       and_then
         (case restored of
            Some r \<Rightarrow> renderSuggestions (get_prop r ''items'')
          | None \<Rightarrow> Inr ())
         (\<lambda>u. Inr (initialState_of restored)))"

section \<open>Observables\<close>

text \<open>
  The RxJS operators the widget uses, on an observable that lives at two moments: what
  it emits at once when subscribed, and what it emits when the answer to its HTTP request
  arrives. \<open>request\<close> is the request that subscribing sends, if any.
\<close>

datatype 'a notification = Next 'a | Err thrown | Complete

type_synonym response = "thrown + WikiOpenSearch"

record 'a observable =
  request :: "(string \<times> int) option"
  immediate :: "'a notification list"
  deferred :: "response \<Rightarrow> 'a notification list"

fun ended :: "'a notification list \<Rightarrow> bool" where
  "ended [] = False"
| "ended (Next v # ns) = ended ns"
| "ended (n # ns) = True"

fun catch_list :: "(thrown \<Rightarrow> 'a notification list) \<Rightarrow> 'a notification list \<Rightarrow> 'a notification list" where
  "catch_list h [] = []"
| "catch_list h (Err e # ns) = h e"
| "catch_list h (n # ns) = n # catch_list h ns"

definition of_obs :: "'a \<Rightarrow> 'a observable" where
  "of_obs v = \<lparr>request = None, immediate = [Next v, Complete], deferred = (\<lambda>r. [])\<rparr>"

definition searchWikipedia :: "string \<Rightarrow> int \<Rightarrow> WikiOpenSearch observable" where
  "searchWikipedia t lim =
     \<lparr>request = Some (t, lim), immediate = [],
      deferred = (\<lambda>r. case r of Inl e \<Rightarrow> [Err e] | Inr data \<Rightarrow> [Next data, Complete])\<rparr>"

definition map_obs :: "('a \<Rightarrow> 'b) \<Rightarrow> 'a observable \<Rightarrow> 'b observable" where
  "map_obs f ob =
     \<lparr>request = request ob, immediate = map (map_notification f) (immediate ob),
      deferred = (\<lambda>r. map (map_notification f) (deferred ob r))\<rparr>"

text \<open>The handler's observable is one that emits at once, as \<^verbatim>\<open>of(...)\<close> does.\<close>

definition catchError :: "(thrown \<Rightarrow> 'a observable) \<Rightarrow> 'a observable \<Rightarrow> 'a observable" where
  "catchError h ob =
     \<lparr>request = request ob,
      immediate = catch_list (\<lambda>e. immediate (h e)) (immediate ob),
      deferred = (\<lambda>r. if ended (immediate ob) then []
                       else catch_list (\<lambda>e. immediate (h e)) (deferred ob r))\<rparr>"

definition startWith :: "'a \<Rightarrow> 'a observable \<Rightarrow> 'a observable" where
  "startWith v ob =
     \<lparr>request = request ob, immediate = Next v # immediate ob, deferred = deferred ob\<rparr>"

section \<open>The widget\<close>

record opts =
  opt_minLength :: "int option"
  opt_debounceMs :: "int option"
  opt_limit :: "int option"

record config =
  minLength :: int
  debounceMs :: int
  limit :: int

definition config_of :: "opts \<Rightarrow> config" where
  "config_of os =
     \<lparr>minLength = (case opt_minLength os of None \<Rightarrow> 3 | Some v \<Rightarrow> v),
      debounceMs = (case opt_debounceMs os of None \<Rightarrow> 500 | Some v \<Rightarrow> v),
      limit = (case opt_limit os of None \<Rightarrow> 10 | Some v \<Rightarrow> v)\<rparr>"

text \<open>\<^verbatim>\<open>e instanceof Error ? e.message : String(e)\<close>.\<close>

definition error_text :: "thrown \<Rightarrow> string" where
  "error_text e = (case e of ErrorObject m \<Rightarrow> m | OtherValue s \<Rightarrow> s)"

text \<open>The function given to \<^verbatim>\<open>switchMap\<close>: the observable of states for one settled term.\<close>

definition project :: "config \<Rightarrow> string \<Rightarrow> SuggestState observable" where
  "project c t =
     (if int (length t) < minLength c then of_obs (Idle t [])
      else startWith (Loading t [])
             (catchError (\<lambda>e. of_obs (Error t [] (error_text e)))
               (map_obs (\<lambda>data. Done t (toSuggestions data))
                 (searchWikipedia t (limit c)))))"

text \<open>
  The mutable state of one binding: \<open>lastState\<close> and \<open>activeIndex\<close> are the variables
  of that name, \<open>inputValue\<close> is \<^verbatim>\<open>opts.input.value\<close>, \<open>lastTerm\<close> is what
  \<^verbatim>\<open>distinctUntilChanged\<close> remembers, \<open>pending\<close> is the inner observable that
  \<^verbatim>\<open>switchMap\<close> is subscribed to (the number of its request and its term), \<open>requests\<close>
  lists the provider calls sent so far, a request's number being its position there.
  Rendering, focus and \<^verbatim>\<open>window.open\<close> are not part of the state.
\<close>

record widget =
  lastState :: SuggestState
  activeIndex :: int
  inputValue :: string
  lastTerm :: "string option"
  pending :: "(nat \<times> string) option"
  requests :: "(string \<times> int) list"
  store :: storage

text \<open>The callback of \<^verbatim>\<open>state$.subscribe\<close>: cache, reset the cursor, persist.\<close>

definition subscriber :: "config \<Rightarrow> int \<Rightarrow> SuggestState \<Rightarrow> widget \<Rightarrow> thrown + widget" where
  "subscriber c now s w =
     (let w1 = w\<lparr>lastState := s, activeIndex := - 1\<rparr> in
      and_then
        (if is_Done s \<and> length (items_of s) > 0
         then savePersisted \<lparr>term_p = term_of s, items_p = items_of s, savedAt = now\<rparr> (store w1)
         else Inr (store w1))
        (\<lambda>st1.
      and_then
        (if is_Idle s \<and> int (length (term_of s)) < minLength c
         then clearPersisted st1
         else Inr st1)
        (\<lambda>st2. Inr (w1\<lparr>store := st2\<rparr>))))"

text \<open>
  Notifications reaching the subscription. There is no error callback: an error
  notification is rethrown to the host. The completion of the inner observable leaves
  \<^verbatim>\<open>switchMap\<close> with nothing pending.
\<close>

fun deliver :: "config \<Rightarrow> int \<Rightarrow> SuggestState notification list \<Rightarrow> widget \<Rightarrow> thrown + widget" where
  "deliver c now [] w = Inr w"
| "deliver c now (Next s # ns) w =
     (case subscriber c now s w of Inl e \<Rightarrow> Inl e | Inr w' \<Rightarrow> deliver c now ns w')"
| "deliver c now (Err e # ns) w = Inl e"
| "deliver c now (Complete # ns) w = Inr (w\<lparr>pending := None\<rparr>)"

text \<open>
  \<^verbatim>\<open>switchMap\<close> on a settled term: the previous inner observable is dropped, the new
  one is subscribed (which sends its request) and emits its immediate part. With
  \<^verbatim>\<open>startWith\<close> the loading state goes out just before the request leaves; the
  request is recorded first here, and no state depends on that order.
\<close>

definition onTerm :: "config \<Rightarrow> int \<Rightarrow> string \<Rightarrow> widget \<Rightarrow> thrown + widget" where
  "onTerm c now t w =
     (let ob = project c t;
          w1 = w\<lparr>pending := Some (length (requests w), t),
                 requests := requests w @ (case request ob of None \<Rightarrow> [] | Some r \<Rightarrow> [r])\<rparr>
      in deliver c now (immediate ob) w1)"

text \<open>The answer to request \<open>n\<close>: heard only by the inner observable still subscribed.\<close>

definition onResponse :: "config \<Rightarrow> int \<Rightarrow> nat \<Rightarrow> response \<Rightarrow> widget \<Rightarrow> thrown + widget" where
  "onResponse c now n r w =
     (case pending w of
        None \<Rightarrow> Inr w
      | Some (m, t) \<Rightarrow> if m = n then deliver c now (deferred (project c t) r) w else Inr w)"

datatype key = ArrowDown | ArrowUp | Enter | Escape | OtherKey

definition onKey :: "config \<Rightarrow> int \<Rightarrow> key \<Rightarrow> widget \<Rightarrow> thrown + widget" where
  "onKey c now k w =
     (let items = items_of (lastState w) in
      case k of
        OtherKey \<Rightarrow> Inr w
      | Escape \<Rightarrow> Inr (w\<lparr>activeIndex := - 1\<rparr>)
      | ArrowDown \<Rightarrow> Inr (w\<lparr>activeIndex := min (activeIndex w + 1) (int (length items) - 1)\<rparr>)
      | ArrowUp \<Rightarrow> Inr (w\<lparr>activeIndex := max (activeIndex w - 1) (- 1)\<rparr>)
      | Enter \<Rightarrow>
          if activeIndex w \<ge> 0 \<and> activeIndex w < int (length items)
          then let selected = items ! nat (activeIndex w) in
               and_then
                 (savePersisted \<lparr>term_p = title selected, items_p = items, savedAt = now\<rparr> (store w))
                 (\<lambda>st. Inr (w\<lparr>inputValue := title selected, store := st\<rparr>))
          else Inr w)"

text \<open>
  A click on the anchor of the rendered item number \<open>i\<close>, whose text is that item's
  title; a click elsewhere in the list (no such anchor) does nothing.
\<close>

definition onClick :: "config \<Rightarrow> int \<Rightarrow> nat \<Rightarrow> widget \<Rightarrow> thrown + widget" where
  "onClick c now i w =
     (let items = items_of (lastState w) in
      if i < length items
      then let title' = title (items ! i);
               w1 = (if title' \<noteq> [] then w\<lparr>inputValue := title'\<rparr> else w)
           in if title' \<noteq> [] \<and> length items > 0
              then and_then
                     (savePersisted \<lparr>term_p = title', items_p = items, savedAt = now\<rparr> (store w1))
                     (\<lambda>st. Inr (w1\<lparr>store := st\<rparr>))
              else Inr w1
      else Inr w)"

text \<open>
  The events the widget reacts to: the debounce timer firing with the trimmed text of
  the latest edit (\<^verbatim>\<open>distinctUntilChanged\<close> lets it through when it differs from the
  last settled term), the answer to a request, a key, a click, and \<open>Input raw\<close>, the
  user editing the field, after which the field holds \<open>raw\<close>. The timer fires later
  than the edit, and in between a key can have put a title into the field.
\<close>

datatype event =
    Debounced string
  | Response nat response
  | KeyDown key
  | Click nat
  | Input string

definition step :: "config \<Rightarrow> int \<Rightarrow> event \<Rightarrow> widget \<Rightarrow> thrown + widget" where
  "step c now ev w =
     (case ev of
        Debounced v \<Rightarrow>
          if lastTerm w = Some v then Inr w else onTerm c now v (w\<lparr>lastTerm := Some v\<rparr>)
      | Response n r \<Rightarrow> onResponse c now n r w
      | KeyDown k \<Rightarrow> onKey c now k w
      | Click i \<Rightarrow> onClick c now i w
      | Input raw \<Rightarrow> Inr (w\<lparr>inputValue := raw\<rparr>))"

text \<open>A run: events with the time (\<^verbatim>\<open>Date.now()\<close>) at which each is handled.\<close>

fun run :: "config \<Rightarrow> widget \<Rightarrow> (int \<times> event) list \<Rightarrow> thrown + widget" where
  "run c w [] = Inr w"
| "run c w ((now, ev) # evs) =
     (case step c now ev w of Inl e \<Rightarrow> Inl e | Inr w' \<Rightarrow> run c w' evs)"

text \<open>
  \<^verbatim>\<open>bindWikipediaAutosuggest\<close>: read the snapshot, build the initial state, seed the
  input and render the restored items (which can throw, and then nothing is bound), and
  subscribe, which delivers the initial state (\<^verbatim>\<open>startWith(initialState)\<close>).
  \<open>typed\<close> is the text the input holds before.
\<close>

definition bindWikipediaAutosuggest ::
  "(string \<Rightarrow> jsnum) \<Rightarrow> opts \<Rightarrow> int \<Rightarrow> string \<Rightarrow> storage \<Rightarrow> thrown + widget" where
  "bindWikipediaAutosuggest s2n os now typed st =
     and_then (loadPersisted s2n now st) (\<lambda>(st1, restored).
       let initialState = initialState_of restored in
       and_then
         (case restored of
            Some r \<Rightarrow> renderSuggestions (get_prop r ''items'')
          | None \<Rightarrow> Inr ())
         (\<lambda>u.
            let w0 = \<lparr>lastState = initialState, activeIndex = - 1,
                      inputValue = (case restored of Some r \<Rightarrow> restored_term r | None \<Rightarrow> typed),
                      lastTerm = None, pending = None, requests = [], store = st1\<rparr>
            in deliver (config_of os) now [Next initialState] w0))"

text \<open>A working store that holds nothing, and the options left at their defaults.\<close>

definition empty_storage :: storage where
  "empty_storage = \<lparr>entries = (\<lambda>k. None), getFails = False, setFails = False, removeFails = False\<rparr>"

definition default_opts :: opts where
  "default_opts = \<lparr>opt_minLength = None, opt_debounceMs = None, opt_limit = None\<rparr>"

text \<open>
  Example data: the widget as it is right after binding with default options on the
  empty store, and a provider response for the query \<open>cat\<close>.
\<close>

definition fresh_widget :: widget where
  "fresh_widget =
     \<lparr>lastState = Idle [] [], activeIndex = - 1, inputValue = [], lastTerm = None,
      pending = None, requests = [], store = empty_storage\<rparr>"

definition cat_response :: WikiOpenSearch where
  "cat_response = (''cat'', [''Cat'', ''Category''], [''d1'', ''d2''], [''u1'', ''u2''])"

text \<open>What the widget holds in memory: everything but the backing store.\<close>

definition in_memory ::
  "widget \<Rightarrow> SuggestState \<times> int \<times> string \<times> string option \<times> (nat \<times> string) option \<times> (string \<times> int) list" where
  "in_memory w = (lastState w, activeIndex w, inputValue w, lastTerm w, pending w, requests w)"

text \<open>
  The states that the answers to request number \<open>b\<close>, sent for the term \<open>B\<close>, give
  in a list of timed events.
\<close>

fun answer_states :: "string \<Rightarrow> nat \<Rightarrow> (int \<times> event) list \<Rightarrow> SuggestState list" where
  "answer_states B b [] = []"
| "answer_states B b (e # evs) =
     (case snd e of
        Response m r \<Rightarrow>
          if m = b
          then [case r of Inl x \<Rightarrow> Error B [] (error_text x) | Inr d \<Rightarrow> Done B (toSuggestions d)]
          else []
      | _ \<Rightarrow> []) @ answer_states B b evs"

section \<open>Properties of the conversion\<close>

lemma toSuggestions_loop_step:
  "i < min (length ts) (min (length ds) (length us)) \<Longrightarrow>
   toSuggestions_loop ts ds us i out =
     toSuggestions_loop ts ds us (Suc i)
       (out @ [\<lparr>title = ts ! i, description = Some (ds ! i), url = Some (us ! i)\<rparr>])"
  by (simp add: toSuggestions_loop.simps [of ts ds us i out])

lemma toSuggestions_loop_stop:
  "\<not> i < min (length ts) (min (length ds) (length us)) \<Longrightarrow>
   toSuggestions_loop ts ds us i out = out"
  by (subst toSuggestions_loop.simps) (simp only: if_False)

lemma toSuggestions_loop_length:
  "length (toSuggestions_loop ts ds us i out) =
     length out + (min (length ts) (min (length ds) (length us)) - i)"
proof (induction ts ds us i out rule: toSuggestions_loop.induct)
  case (1 ts ds us i out)
  show ?case
  proof (cases "i < min (length ts) (min (length ds) (length us))")
    case True
    from "1" [OF True] toSuggestions_loop_step [OF True, of out] True
    show ?thesis by (simp del: min_less_iff_conj) arith
  next
    case False
    from toSuggestions_loop_stop [OF False, of out] False
    show ?thesis by (simp del: min_less_iff_conj)
  qed
qed

lemma toSuggestions_loop_nth:
  assumes "k < length (toSuggestions_loop ts ds us i out)"
  shows "toSuggestions_loop ts ds us i out ! k =
           (if k < length out then out ! k
            else \<lparr>title = ts ! (i + (k - length out)),
                  description = Some (ds ! (i + (k - length out))),
                  url = Some (us ! (i + (k - length out)))\<rparr>)"
  using assms
proof (induction ts ds us i out rule: toSuggestions_loop.induct)
  case (1 ts ds us i out)
  show ?case
  proof (cases "i < min (length ts) (min (length ds) (length us))")
    case True
    let ?out = "out @ [\<lparr>title = ts ! i, description = Some (ds ! i), url = Some (us ! i)\<rparr>]"
    have unfold: "toSuggestions_loop ts ds us i out = toSuggestions_loop ts ds us (i + 1) ?out"
      using toSuggestions_loop_step [OF True] by simp
    have k: "k < length (toSuggestions_loop ts ds us (i + 1) ?out)"
      using "1.prems" unfold by simp
    have ih: "toSuggestions_loop ts ds us (i + 1) ?out ! k =
           (if k < length ?out then ?out ! k
            else \<lparr>title = ts ! (i + 1 + (k - length ?out)),
                  description = Some (ds ! (i + 1 + (k - length ?out))),
                  url = Some (us ! (i + 1 + (k - length ?out)))\<rparr>)"
      using "1.IH" [OF True k] .
    show ?thesis
    proof (cases "k < length out")
      case True
      then show ?thesis using ih unfold by (simp add: nth_append)
    next
      case False
      show ?thesis
      proof (cases "k = length out")
        case True
        then show ?thesis using ih unfold by (simp add: nth_append)
      next
        case neq: False
        with False have gt: "length out < k" by simp
        then have "i + 1 + (k - length ?out) = i + (k - length out)" by simp
        then show ?thesis using ih unfold gt False by simp
      qed
    qed
  next
    case False
    from toSuggestions_loop_stop [OF False, of out] "1.prems"
    show ?thesis by simp
  qed
qed

text \<open>
  C5. For every provider response \<open>(queryEcho, titles, descriptions, urls)\<close> the
  conversion does not depend on \<open>queryEcho\<close>, produces exactly
  \<open>min |titles| |descriptions| |urls|\<close> suggestions, and the \<open>i\<close>-th suggestion is
  built from the \<open>i\<close>-th title, description and url, in the provider's order.
\<close>

theorem toSuggestions_zip:
  "toSuggestions (queryEcho, titles, descriptions, urls) =
     toSuggestions (queryEcho', titles, descriptions, urls)
   \<and> length (toSuggestions (queryEcho, titles, descriptions, urls)) =
       min (length titles) (min (length descriptions) (length urls))
   \<and> (\<forall>i < min (length titles) (min (length descriptions) (length urls)).
        toSuggestions (queryEcho, titles, descriptions, urls) ! i =
          \<lparr>title = titles ! i, description = Some (descriptions ! i), url = Some (urls ! i)\<rparr>)"
proof -
  have len: "length (toSuggestions (queryEcho, titles, descriptions, urls)) =
       min (length titles) (min (length descriptions) (length urls))"
    by (simp add: toSuggestions_loop_length)
  have nth: "toSuggestions (queryEcho, titles, descriptions, urls) ! i =
          \<lparr>title = titles ! i, description = Some (descriptions ! i), url = Some (urls ! i)\<rparr>"
    if "i < min (length titles) (min (length descriptions) (length urls))" for i
  proof -
    have "i < length (toSuggestions_loop titles descriptions urls 0 [])"
      using that by (simp add: toSuggestions_loop_length)
    from toSuggestions_loop_nth [OF this] show ?thesis by simp
  qed
  show ?thesis using len nth by simp
qed

theorem toSuggestions_zip_witness:
  "toSuggestions (''cat'', [''Cat'', ''Category'', ''Catalan''], [''d1'', ''d2''], [''u1'', ''u2'', ''u3'']) =
     [\<lparr>title = ''Cat'', description = Some ''d1'', url = Some ''u1''\<rparr>,
      \<lparr>title = ''Category'', description = Some ''d2'', url = Some ''u2''\<rparr>]"
proof -
  let ?r = "toSuggestions (''cat'', [''Cat'', ''Category'', ''Catalan''], [''d1'', ''d2''], [''u1'', ''u2'', ''u3''])"
  note z = toSuggestions_zip [of "''cat''" "[''Cat'', ''Category'', ''Catalan'']" "[''d1'', ''d2'']"
      "[''u1'', ''u2'', ''u3'']" "''cat''"]
  from z have len: "length ?r = 2" by simp
  from z have n0: "?r ! 0 = \<lparr>title = ''Cat'', description = Some ''d1'', url = Some ''u1''\<rparr>"
    by simp
  from z have n1: "?r ! 1 = \<lparr>title = ''Category'', description = Some ''d2'', url = Some ''u2''\<rparr>"
    by simp
  show ?thesis
    by (rule nth_equalityI) (use len n0 n1 in \<open>auto simp: less_Suc_eq numeral_2_eq_2\<close>)
qed

section \<open>How each handler changes the widget\<close>

lemma and_then_simps [simp]: "and_then (Inr v) f = f v" "and_then (Inl e) f = Inl e"
  by (simp_all add: and_then_def)

lemma try_catch_simps [simp]: "try_catch (Inr v) h = Inr v" "try_catch (Inl e) h = h e"
  by (simp_all add: try_catch_def)

lemma savePersisted_result:
  "savePersisted v st =
     Inr (if setFails st then st else st\<lparr>entries := (entries st)(STORAGE_KEY := Some (JSON_stringify v))\<rparr>)"
  by (simp add: savePersisted_def setItem_def)

lemma clearPersisted_result:
  "clearPersisted st =
     Inr (if removeFails st then st else st\<lparr>entries := (entries st)(STORAGE_KEY := None)\<rparr>)"
  by (simp add: clearPersisted_def removeItem_def)

lemma project_short:
  "int (length t) < minLength c \<Longrightarrow>
   project c t = \<lparr>request = None, immediate = [Next (Idle t []), Complete], deferred = (\<lambda>r. [])\<rparr>"
  by (simp add: project_def of_obs_def)

lemma project_long:
  "\<not> int (length t) < minLength c \<Longrightarrow>
   project c t = \<lparr>request = Some (t, limit c), immediate = [Next (Loading t [])],
     deferred = (\<lambda>r. case r of Inl e \<Rightarrow> [Next (Error t [] (error_text e)), Complete]
                     | Inr d \<Rightarrow> [Next (Done t (toSuggestions d)), Complete])\<rparr>"
  by (auto simp add: project_def of_obs_def startWith_def catchError_def map_obs_def searchWikipedia_def fun_eq_iff split: sum.splits)

lemma subscriber_result:
  "\<exists>st'. subscriber c now s w = Inr (w\<lparr>lastState := s, activeIndex := - 1, store := st'\<rparr>)"
proof -
  let ?w1 = "w\<lparr>lastState := s, activeIndex := - 1\<rparr>"
  have "\<exists>st1. (if is_Done s \<and> length (items_of s) > 0
         then savePersisted \<lparr>term_p = term_of s, items_p = items_of s, savedAt = now\<rparr> (store ?w1)
         else Inr (store ?w1)) = Inr st1"
    by (simp add: savePersisted_result)
  then obtain st1 where s1: "(if is_Done s \<and> length (items_of s) > 0
         then savePersisted \<lparr>term_p = term_of s, items_p = items_of s, savedAt = now\<rparr> (store ?w1)
         else Inr (store ?w1)) = Inr st1" ..
  have "\<exists>st2. (if is_Idle s \<and> int (length (term_of s)) < minLength c
         then clearPersisted st1 else Inr st1) = Inr st2"
    by (simp add: clearPersisted_result)
  then obtain st2 where s2: "(if is_Idle s \<and> int (length (term_of s)) < minLength c
         then clearPersisted st1 else Inr st1) = Inr st2" ..
  have "subscriber c now s w = Inr (?w1\<lparr>store := st2\<rparr>)"
    unfolding subscriber_def Let_def s1 and_then_simps s2 ..
  then show ?thesis by auto
qed

lemma deliver_Next_Complete:
  "\<exists>st'. deliver c now [Next s, Complete] w =
     Inr (w\<lparr>lastState := s, activeIndex := - 1, store := st', pending := None\<rparr>)"
proof -
  obtain st' where "subscriber c now s w = Inr (w\<lparr>lastState := s, activeIndex := - 1, store := st'\<rparr>)"
    using subscriber_result by blast
  then have "deliver c now [Next s, Complete] w =
     Inr (w\<lparr>lastState := s, activeIndex := - 1, store := st', pending := None\<rparr>)"
    by simp
  then show ?thesis ..
qed

lemma deliver_Next:
  "\<exists>st'. deliver c now [Next s] w =
     Inr (w\<lparr>lastState := s, activeIndex := - 1, store := st'\<rparr>)"
proof -
  obtain st' where "subscriber c now s w = Inr (w\<lparr>lastState := s, activeIndex := - 1, store := st'\<rparr>)"
    using subscriber_result by blast
  then have "deliver c now [Next s] w =
     Inr (w\<lparr>lastState := s, activeIndex := - 1, store := st'\<rparr>)"
    by simp
  then show ?thesis ..
qed

lemma onTerm_short:
  assumes "int (length t) < minLength c"
  shows "\<exists>st'. onTerm c now t w =
     Inr (w\<lparr>lastState := Idle t [], activeIndex := - 1, store := st', pending := None\<rparr>)"
proof -
  let ?w1 = "w\<lparr>pending := Some (length (requests w), t), requests := requests w @ []\<rparr>"
  obtain st' where "deliver c now [Next (Idle t []), Complete] ?w1 =
     Inr (?w1\<lparr>lastState := Idle t [], activeIndex := - 1, store := st', pending := None\<rparr>)"
    using deliver_Next_Complete by blast
  then have "onTerm c now t w =
     Inr (w\<lparr>lastState := Idle t [], activeIndex := - 1, store := st', pending := None\<rparr>)"
    by (simp add: onTerm_def project_short [OF assms] Let_def)
  then show ?thesis ..
qed

lemma onTerm_long:
  assumes "\<not> int (length t) < minLength c"
  shows "\<exists>st'. onTerm c now t w =
     Inr (w\<lparr>lastState := Loading t [], activeIndex := - 1, store := st',
            pending := Some (length (requests w), t),
            requests := requests w @ [(t, limit c)]\<rparr>)"
proof -
  let ?w1 = "w\<lparr>pending := Some (length (requests w), t), requests := requests w @ [(t, limit c)]\<rparr>"
  obtain st' where "deliver c now [Next (Loading t [])] ?w1 =
     Inr (?w1\<lparr>lastState := Loading t [], activeIndex := - 1, store := st'\<rparr>)"
    using deliver_Next by blast
  then have "onTerm c now t w =
     Inr (w\<lparr>lastState := Loading t [], activeIndex := - 1, store := st',
            pending := Some (length (requests w), t),
            requests := requests w @ [(t, limit c)]\<rparr>)"
    by (simp add: onTerm_def project_long [OF assms] Let_def)
  then show ?thesis ..
qed


lemma onResponse_stale:
  "(\<And>t. pending w \<noteq> Some (n, t)) \<Longrightarrow> onResponse c now n r w = Inr w"
  by (auto simp: onResponse_def split: option.splits)

lemma onResponse_short:
  "pending w = Some (n, t) \<Longrightarrow> int (length t) < minLength c \<Longrightarrow>
   onResponse c now n r w = Inr w"
  by (simp add: onResponse_def project_short)

lemma onResponse_long:
  assumes "pending w = Some (n, t)" and "\<not> int (length t) < minLength c"
  shows "\<exists>st'. onResponse c now n r w =
     Inr (w\<lparr>lastState := (case r of Inl e \<Rightarrow> Error t [] (error_text e)
                                   | Inr d \<Rightarrow> Done t (toSuggestions d)),
            activeIndex := - 1, store := st', pending := None\<rparr>)"
proof -
  let ?s = "case r of Inl e \<Rightarrow> Error t [] (error_text e) | Inr d \<Rightarrow> Done t (toSuggestions d)"
  obtain st' where "deliver c now [Next ?s, Complete] w =
     Inr (w\<lparr>lastState := ?s, activeIndex := - 1, store := st', pending := None\<rparr>)"
    using deliver_Next_Complete by blast
  moreover have "deferred (project c t) r = [Next ?s, Complete]"
    by (simp add: project_long [OF assms(2)] split: sum.splits)
  ultimately have "onResponse c now n r w =
     Inr (w\<lparr>lastState := ?s, activeIndex := - 1, store := st', pending := None\<rparr>)"
    by (simp add: onResponse_def assms(1))
  then show ?thesis ..
qed

lemma savePersisted_total: "\<exists>st'. savePersisted v st = Inr st'"
  by (simp add: savePersisted_result)

lemma clearPersisted_total: "\<exists>st'. clearPersisted st = Inr st'"
  by (simp add: clearPersisted_result)

lemma onKey_Enter:
  "\<exists>st'. onKey c now Enter w =
     Inr (if activeIndex w \<ge> 0 \<and> activeIndex w < int (length (items_of (lastState w)))
          then w\<lparr>inputValue := title (items_of (lastState w) ! nat (activeIndex w)), store := st'\<rparr>
          else w)"
proof -
  obtain st' where sv: "savePersisted
      \<lparr>term_p = title (items_of (lastState w) ! nat (activeIndex w)),
       items_p = items_of (lastState w), savedAt = now\<rparr> (store w) = Inr st'"
    using savePersisted_total by blast
  have "onKey c now Enter w =
     Inr (if activeIndex w \<ge> 0 \<and> activeIndex w < int (length (items_of (lastState w)))
          then w\<lparr>inputValue := title (items_of (lastState w) ! nat (activeIndex w)), store := st'\<rparr>
          else w)"
    by (simp add: onKey_def Let_def sv)
  then show ?thesis ..
qed

lemma onClick_result:
  "\<exists>st'. onClick c now i w =
     Inr (if i < length (items_of (lastState w)) \<and> title (items_of (lastState w) ! i) \<noteq> []
          then w\<lparr>inputValue := title (items_of (lastState w) ! i), store := st'\<rparr>
          else w)"
proof -
  obtain st' where sv: "savePersisted
      \<lparr>term_p = title (items_of (lastState w) ! i),
       items_p = items_of (lastState w), savedAt = now\<rparr> (store w) = Inr st'"
    using savePersisted_total by blast
  have "onClick c now i w =
     Inr (if i < length (items_of (lastState w)) \<and> title (items_of (lastState w) ! i) \<noteq> []
          then w\<lparr>inputValue := title (items_of (lastState w) ! i), store := st'\<rparr>
          else w)"
    by (auto simp add: onClick_def Let_def sv)
  then show ?thesis ..
qed

lemma onKey_other:
  "onKey c now OtherKey w = Inr w"
  "onKey c now Escape w = Inr (w\<lparr>activeIndex := - 1\<rparr>)"
  "onKey c now ArrowDown w =
     Inr (w\<lparr>activeIndex := min (activeIndex w + 1) (int (length (items_of (lastState w))) - 1)\<rparr>)"
  "onKey c now ArrowUp w = Inr (w\<lparr>activeIndex := max (activeIndex w - 1) (- 1)\<rparr>)"
  by (simp_all add: onKey_def Let_def)

lemma step_Debounced_dup:
  "lastTerm w = Some v \<Longrightarrow> step c now (Debounced v) w = Inr w"
  by (simp add: step_def)

lemma step_Debounced_short:
  assumes "lastTerm w \<noteq> Some v" and "int (length v) < minLength c"
  shows "\<exists>st'. step c now (Debounced v) w =
     Inr (w\<lparr>lastTerm := Some v, lastState := Idle v [], activeIndex := - 1, store := st',
            pending := None\<rparr>)"
proof -
  obtain st' where "onTerm c now v (w\<lparr>lastTerm := Some v\<rparr>) =
     Inr (w\<lparr>lastTerm := Some v, lastState := Idle v [], activeIndex := - 1, store := st',
            pending := None\<rparr>)"
    using onTerm_short [OF assms(2), of now "w\<lparr>lastTerm := Some v\<rparr>"] by blast
  then have "step c now (Debounced v) w =
     Inr (w\<lparr>lastTerm := Some v, lastState := Idle v [], activeIndex := - 1, store := st',
            pending := None\<rparr>)"
    using assms(1) by (simp add: step_def)
  then show ?thesis ..
qed

lemma step_Debounced_long:
  assumes "lastTerm w \<noteq> Some v" and "\<not> int (length v) < minLength c"
  shows "\<exists>st'. step c now (Debounced v) w =
     Inr (w\<lparr>lastTerm := Some v, lastState := Loading v [], activeIndex := - 1, store := st',
            pending := Some (length (requests w), v),
            requests := requests w @ [(v, limit c)]\<rparr>)"
proof -
  obtain st' where "onTerm c now v (w\<lparr>lastTerm := Some v\<rparr>) =
     Inr (w\<lparr>lastTerm := Some v, lastState := Loading v [], activeIndex := - 1, store := st',
            pending := Some (length (requests w), v),
            requests := requests w @ [(v, limit c)]\<rparr>)"
    using onTerm_long [OF assms(2), of now "w\<lparr>lastTerm := Some v\<rparr>"] by auto
  then have "step c now (Debounced v) w =
     Inr (w\<lparr>lastTerm := Some v, lastState := Loading v [], activeIndex := - 1, store := st',
            pending := Some (length (requests w), v),
            requests := requests w @ [(v, limit c)]\<rparr>)"
    using assms(1) by (simp add: step_def)
  then show ?thesis ..
qed

lemma step_elim:
  obtains
    (dup) v where "ev = Debounced v" "lastTerm w = Some v" "step c now ev w = Inr w"
  | (idle) v st' where "ev = Debounced v" "lastTerm w \<noteq> Some v" "int (length v) < minLength c"
      "step c now ev w =
         Inr (w\<lparr>lastTerm := Some v, lastState := Idle v [], activeIndex := - 1, store := st',
                pending := None\<rparr>)"
  | (loading) v st' where "ev = Debounced v" "lastTerm w \<noteq> Some v"
      "\<not> int (length v) < minLength c"
      "step c now ev w =
         Inr (w\<lparr>lastTerm := Some v, lastState := Loading v [], activeIndex := - 1, store := st',
                pending := Some (length (requests w), v),
                requests := requests w @ [(v, limit c)]\<rparr>)"
  | (stale) n r where "ev = Response n r" "\<And>t. pending w \<noteq> Some (n, t)"
      "step c now ev w = Inr w"
  | (dead) n r t where "ev = Response n r" "pending w = Some (n, t)"
      "int (length t) < minLength c" "step c now ev w = Inr w"
  | (answer) n r t st' where "ev = Response n r" "pending w = Some (n, t)"
      "\<not> int (length t) < minLength c"
      "step c now ev w =
         Inr (w\<lparr>lastState := (case r of Inl e \<Rightarrow> Error t [] (error_text e)
                                       | Inr d \<Rightarrow> Done t (toSuggestions d)),
                activeIndex := - 1, store := st', pending := None\<rparr>)"
  | (cursor) k where "ev = KeyDown k" "k \<noteq> Enter"
      "step c now ev w =
         Inr (w\<lparr>activeIndex :=
                  (case k of
                     ArrowDown \<Rightarrow> min (activeIndex w + 1) (int (length (items_of (lastState w))) - 1)
                   | ArrowUp \<Rightarrow> max (activeIndex w - 1) (- 1)
                   | Escape \<Rightarrow> - 1
                   | _ \<Rightarrow> activeIndex w)\<rparr>)"
  | (enter) st' where "ev = KeyDown Enter"
      "step c now ev w =
         Inr (if activeIndex w \<ge> 0 \<and> activeIndex w < int (length (items_of (lastState w)))
              then w\<lparr>inputValue := title (items_of (lastState w) ! nat (activeIndex w)),
                     store := st'\<rparr>
              else w)"
  | (click) i st' where "ev = Click i"
      "step c now ev w =
         Inr (if i < length (items_of (lastState w)) \<and> title (items_of (lastState w) ! i) \<noteq> []
              then w\<lparr>inputValue := title (items_of (lastState w) ! i), store := st'\<rparr>
              else w)"
  | (input) raw where "ev = Input raw" "step c now ev w = Inr (w\<lparr>inputValue := raw\<rparr>)"
proof (cases ev)
  case (Debounced v)
  show ?thesis
  proof (cases "lastTerm w = Some v")
    case True
    then show ?thesis using dup Debounced step_Debounced_dup by blast
  next
    case False
    show ?thesis
    proof (cases "int (length v) < minLength c")
      case True
      then show ?thesis
        using idle Debounced False step_Debounced_short [OF False True, of now] by blast
    next
      case long: False
      then show ?thesis
        using loading Debounced False step_Debounced_long [OF False long, of now] by blast
    qed
  qed
next
  case (Response n r)
  show ?thesis
  proof (cases "\<exists>t. pending w = Some (n, t)")
    case False
    then have "\<And>t. pending w \<noteq> Some (n, t)" by blast
    moreover from this have "step c now ev w = Inr w"
      using Response onResponse_stale [of w n c now r] by (simp add: step_def)
    ultimately show ?thesis using stale Response by blast
  next
    case True
    then obtain t where p: "pending w = Some (n, t)" by blast
    show ?thesis
    proof (cases "int (length t) < minLength c")
      case True
      then have "step c now ev w = Inr w"
        using Response onResponse_short [OF p True] by (simp add: step_def)
      then show ?thesis using dead Response p True by blast
    next
      case False
      obtain st' where "onResponse c now n r w =
         Inr (w\<lparr>lastState := (case r of Inl e \<Rightarrow> Error t [] (error_text e)
                                       | Inr d \<Rightarrow> Done t (toSuggestions d)),
                activeIndex := - 1, store := st', pending := None\<rparr>)"
        using onResponse_long [OF p False] by blast
      then have "step c now ev w =
         Inr (w\<lparr>lastState := (case r of Inl e \<Rightarrow> Error t [] (error_text e)
                                       | Inr d \<Rightarrow> Done t (toSuggestions d)),
                activeIndex := - 1, store := st', pending := None\<rparr>)"
        using Response by (simp add: step_def)
      then show ?thesis using answer Response p False by blast
    qed
  qed
next
  case (KeyDown k)
  show ?thesis
  proof (cases "k = Enter")
    case True
    obtain st' where "onKey c now Enter w =
         Inr (if activeIndex w \<ge> 0 \<and> activeIndex w < int (length (items_of (lastState w)))
              then w\<lparr>inputValue := title (items_of (lastState w) ! nat (activeIndex w)),
                     store := st'\<rparr>
              else w)"
      using onKey_Enter by blast
    then have "step c now ev w =
         Inr (if activeIndex w \<ge> 0 \<and> activeIndex w < int (length (items_of (lastState w)))
              then w\<lparr>inputValue := title (items_of (lastState w) ! nat (activeIndex w)),
                     store := st'\<rparr>
              else w)"
      using KeyDown True by (simp add: step_def)
    then show ?thesis using enter KeyDown True by blast
  next
    case False
    then have "step c now ev w =
         Inr (w\<lparr>activeIndex :=
                  (case k of
                     ArrowDown \<Rightarrow> min (activeIndex w + 1) (int (length (items_of (lastState w))) - 1)
                   | ArrowUp \<Rightarrow> max (activeIndex w - 1) (- 1)
                   | Escape \<Rightarrow> - 1
                   | _ \<Rightarrow> activeIndex w)\<rparr>)"
      using KeyDown by (cases k) (simp_all add: step_def onKey_other)
    then show ?thesis using cursor KeyDown False by blast
  qed
next
  case (Click i)
  obtain st' where "onClick c now i w =
         Inr (if i < length (items_of (lastState w)) \<and> title (items_of (lastState w) ! i) \<noteq> []
              then w\<lparr>inputValue := title (items_of (lastState w) ! i), store := st'\<rparr>
              else w)"
    using onClick_result by blast
  then have "step c now ev w =
         Inr (if i < length (items_of (lastState w)) \<and> title (items_of (lastState w) ! i) \<noteq> []
              then w\<lparr>inputValue := title (items_of (lastState w) ! i), store := st'\<rparr>
              else w)"
    using Click by (simp add: step_def)
  then show ?thesis using click Click by blast
next
  case (Input raw)
  then have "step c now ev w = Inr (w\<lparr>inputValue := raw\<rparr>)" by (simp add: step_def)
  then show ?thesis using input Input by blast
qed

lemma step_total: "\<exists>w'. step c now ev w = Inr w'"
  by (cases rule: step_elim [of ev w c now]) auto

lemma run_total: "\<exists>w'. run c w evs = Inr w'"
proof (induction evs arbitrary: w)
  case Nil
  then show ?case by simp
next
  case (Cons a evs)
  obtain now ev where a: "a = (now, ev)" by (cases a)
  obtain w1 where "step c now ev w = Inr w1" using step_total by blast
  with Cons a show ?case by simp
qed

lemma run_invariant:
  assumes "P w"
    and "\<And>now ev w w'. P w \<Longrightarrow> step c now ev w = Inr w' \<Longrightarrow> P w'"
    and "run c w evs = Inr w'"
  shows "P w'"
  using assms(1,3)
proof (induction evs arbitrary: w)
  case Nil
  then show ?case by simp
next
  case (Cons a evs)
  obtain now ev where a: "a = (now, ev)" by (cases a)
  obtain w1 where s: "step c now ev w = Inr w1" using step_total by blast
  with Cons.prems a have "run c w1 evs = Inr w'" by simp
  moreover have "P w1" using assms(2) [OF Cons.prems(1) s] .
  ultimately show ?case using Cons.IH by blast
qed

section \<open>Settled terms\<close>

text \<open>
  C4. A settled term shorter than \<open>minLength\<close> (3 unless configured) gives exactly
  the state \<open>Idle t []\<close>, and no provider call is issued for it: the observable
  built for it sends no request and the list of requests sent is unchanged.
\<close>

theorem short_term_idle:
  assumes "int (length t) < minLength c"
  shows "\<exists>w'. onTerm c now t w = Inr w' \<and> lastState w' = Idle t [] \<and> pending w' = None
           \<and> requests w' = requests w \<and> request (project c t) = None
           \<and> minLength (config_of (os\<lparr>opt_minLength := None\<rparr>)) = 3"
proof -
  obtain st' where "onTerm c now t w =
     Inr (w\<lparr>lastState := Idle t [], activeIndex := - 1, store := st', pending := None\<rparr>)"
    using onTerm_short [OF assms] by blast
  then show ?thesis
    by (simp add: project_short [OF assms] config_of_def)
qed

theorem short_term_idle_witness:
  "int (length ''ca'') < minLength (config_of default_opts)
   \<and> (\<exists>w'. onTerm (config_of default_opts) 1000 ''ca'' fresh_widget = Inr w'
          \<and> lastState w' = Idle ''ca'' [] \<and> pending w' = None
          \<and> requests w' = requests fresh_widget
          \<and> request (project (config_of default_opts) ''ca'') = None
          \<and> minLength (config_of (default_opts\<lparr>opt_minLength := None\<rparr>)) = 3)"
proof -
  have h: "int (length ''ca'') < minLength (config_of default_opts)"
    by (simp add: config_of_def default_opts_def)
  from h short_term_idle [OF h, of 1000 fresh_widget default_opts] show ?thesis by blast
qed

text \<open>
  C2, as the code has it. For a settled term of at least \<open>minLength\<close> characters the
  state emitted before the search completes is \<open>Loading t []\<close>: the item list is
  empty, whatever the items of the state that was current before, and the provider is
  called with \<open>(t, limit)\<close> (limit 10 unless configured).
\<close>

theorem loading_resets_items:
  assumes "minLength c \<le> int (length t)"
  shows "\<exists>w'. onTerm c now t w = Inr w' \<and> lastState w' = Loading t []
           \<and> requests w' = requests w @ [(t, limit c)]
           \<and> pending w' = Some (length (requests w), t)
           \<and> limit (config_of (os\<lparr>opt_limit := None\<rparr>)) = 10"
proof -
  from assms have long: "\<not> int (length t) < minLength c" by simp
  obtain st' where "onTerm c now t w =
     Inr (w\<lparr>lastState := Loading t [], activeIndex := - 1, store := st',
            pending := Some (length (requests w), t),
            requests := requests w @ [(t, limit c)]\<rparr>)"
    using onTerm_long [OF long] by blast
  then show ?thesis
    by (simp add: config_of_def)
qed

theorem loading_resets_items_witness:
  "minLength (config_of default_opts) \<le> int (length ''cat'')
   \<and> (\<exists>w'. onTerm (config_of default_opts) 1000 ''cat'' fresh_widget = Inr w'
          \<and> lastState w' = Loading ''cat'' []
          \<and> requests w' = requests fresh_widget @ [(''cat'', limit (config_of default_opts))]
          \<and> pending w' = Some (length (requests fresh_widget), ''cat'')
          \<and> limit (config_of (default_opts\<lparr>opt_limit := None\<rparr>)) = 10)"
proof -
  have h: "minLength (config_of default_opts) \<le> int (length ''cat'')"
    by (simp add: config_of_def default_opts_def)
  from h loading_resets_items [OF h, of 1000 fresh_widget default_opts] show ?thesis by blast
qed

text \<open>
  The loading state does not carry the previous items: after the search for \<open>cat\<close>
  has produced two items, the term \<open>dog\<close> settles and the state is
  \<open>Loading dog []\<close>, not \<open>Loading dog\<close> with those two items.
\<close>

theorem loading_keeps_items_counterexample:
  "map_sum id lastState (run (config_of default_opts) fresh_widget
       [(1, Debounced ''cat''), (2, Response 0 (Inr cat_response))])
     = Inr (Done ''cat'' [\<lparr>title = ''Cat'', description = Some ''d1'', url = Some ''u1''\<rparr>,
                          \<lparr>title = ''Category'', description = Some ''d2'', url = Some ''u2''\<rparr>])
   \<and> map_sum id lastState (run (config_of default_opts) fresh_widget
       [(1, Debounced ''cat''), (2, Response 0 (Inr cat_response)), (3, Debounced ''dog'')])
     = Inr (Loading ''dog'' [])
   \<and> Loading ''dog'' [] \<noteq>
       Loading ''dog'' [\<lparr>title = ''Cat'', description = Some ''d1'', url = Some ''u1''\<rparr>,
                        \<lparr>title = ''Category'', description = Some ''d2'', url = Some ''u2''\<rparr>]"
  by code_simp

text \<open>
  C3, as the code has it. When the search for a settled term \<open>t\<close> fails with \<open>e\<close>,
  the state becomes \<open>Error t [] message\<close>, where the message is \<open>e.message\<close> for an
  \<^verbatim>\<open>Error\<close> and \<open>String(e)\<close> otherwise; the item list is empty, as it is in the
  loading state before it; the handling returns normally, nothing is thrown past the
  state machine.
\<close>

theorem failure_becomes_error_state:
  assumes "minLength c \<le> int (length t)"
  shows "\<exists>w1 w2. onTerm c now t w = Inr w1
           \<and> onResponse c now' (length (requests w)) (Inl e) w1 = Inr w2
           \<and> lastState w2 = Error t [] (error_text e) \<and> pending w2 = None
           \<and> items_of (lastState w2) = items_of (lastState w1)"
proof -
  from assms have long: "\<not> int (length t) < minLength c" by simp
  obtain st' where w1: "onTerm c now t w =
     Inr (w\<lparr>lastState := Loading t [], activeIndex := - 1, store := st',
            pending := Some (length (requests w), t),
            requests := requests w @ [(t, limit c)]\<rparr>)"
    using onTerm_long [OF long] by blast
  let ?w1 = "w\<lparr>lastState := Loading t [], activeIndex := - 1, store := st',
            pending := Some (length (requests w), t),
            requests := requests w @ [(t, limit c)]\<rparr>"
  have p: "pending ?w1 = Some (length (requests w), t)" by simp
  obtain st'' where "onResponse c now' (length (requests w)) (Inl e) ?w1 =
     Inr (?w1\<lparr>lastState := (case (Inl e :: response) of Inl e \<Rightarrow> Error t [] (error_text e)
                                   | Inr d \<Rightarrow> Done t (toSuggestions d)),
            activeIndex := - 1, store := st'', pending := None\<rparr>)"
    using onResponse_long [OF p long] by blast
  with w1 show ?thesis by simp
qed

theorem failure_becomes_error_state_witness:
  "minLength (config_of default_opts) \<le> int (length ''dog'')
   \<and> (\<exists>w1 w2. onTerm (config_of default_opts) 1000 ''dog'' fresh_widget = Inr w1
          \<and> onResponse (config_of default_opts) 2000 (length (requests fresh_widget))
                (Inl (ErrorObject ''timeout'')) w1 = Inr w2
          \<and> lastState w2 = Error ''dog'' [] (error_text (ErrorObject ''timeout''))
          \<and> pending w2 = None
          \<and> items_of (lastState w2) = items_of (lastState w1))"
proof -
  have h: "minLength (config_of default_opts) \<le> int (length ''dog'')"
    by (simp add: config_of_def default_opts_def)
  from h failure_becomes_error_state [OF h, of 1000 fresh_widget 2000 "ErrorObject ''timeout''"]
  show ?thesis by blast
qed

text \<open>
  The error state does not carry the previous items: after the search for \<open>cat\<close> has
  produced two items, the term \<open>dog\<close> settles and its search fails; the state is
  \<open>Error dog [] timeout\<close>, not \<open>Error dog\<close> with those two items.
\<close>

theorem error_keeps_items_counterexample:
  "map_sum id lastState (run (config_of default_opts) fresh_widget
       [(1, Debounced ''cat''), (2, Response 0 (Inr cat_response))])
     = Inr (Done ''cat'' [\<lparr>title = ''Cat'', description = Some ''d1'', url = Some ''u1''\<rparr>,
                          \<lparr>title = ''Category'', description = Some ''d2'', url = Some ''u2''\<rparr>])
   \<and> map_sum id lastState (run (config_of default_opts) fresh_widget
       [(1, Debounced ''cat''), (2, Response 0 (Inr cat_response)), (3, Debounced ''dog''),
        (4, Response 1 (Inl (ErrorObject ''timeout'')))])
     = Inr (Error ''dog'' [] ''timeout'')
   \<and> Error ''dog'' [] ''timeout'' \<noteq>
       Error ''dog'' [\<lparr>title = ''Cat'', description = Some ''d1'', url = Some ''u1''\<rparr>,
                      \<lparr>title = ''Category'', description = Some ''d2'', url = Some ''u2''\<rparr>]
         ''timeout''"
  by code_simp

section \<open>The keyboard cursor\<close>

lemma try_catch_recovers:
  "\<exists>a b. try_catch m (\<lambda>e. Inr (x, y)) = Inr (a, b)"
proof (cases m)
  case (Inl e)
  then show ?thesis by simp
next
  case (Inr v)
  then show ?thesis by (cases v) simp
qed

lemma loadPersisted_total: "\<exists>st' r. loadPersisted s2n now st = Inr (st', r)"
  unfolding loadPersisted_def by (rule try_catch_recovers)

lemma bind_result:
  assumes "loadPersisted s2n now st = Inr (st1, r)"
    and "case r of None \<Rightarrow> True | Some v \<Rightarrow> renderSuggestions (get_prop v ''items'') = Inr ()"
  shows "\<exists>st'. bindWikipediaAutosuggest s2n os now typed st =
     Inr \<lparr>lastState = (case r of Some v \<Rightarrow> Done (restored_term v) (restored_items v)
                                 | None \<Rightarrow> Idle [] []),
          activeIndex = - 1,
          inputValue = (case r of Some v \<Rightarrow> restored_term v | None \<Rightarrow> typed),
          lastTerm = None, pending = None, requests = [], store = st'\<rparr>"
proof -
  let ?s = "case r of Some v \<Rightarrow> Done (restored_term v) (restored_items v) | None \<Rightarrow> Idle [] []"
  let ?w0 = "\<lparr>lastState = ?s, activeIndex = - 1,
          inputValue = (case r of Some v \<Rightarrow> restored_term v | None \<Rightarrow> typed),
          lastTerm = None, pending = None, requests = [], store = st1\<rparr>"
  have render: "(case r of Some v \<Rightarrow> renderSuggestions (get_prop v ''items'') | None \<Rightarrow> Inr ())
      = Inr ()"
    using assms(2) by (cases r) simp_all
  obtain st' where "deliver (config_of os) now [Next ?s] ?w0 =
     Inr (?w0\<lparr>lastState := ?s, activeIndex := - 1, store := st'\<rparr>)"
    using deliver_Next by blast
  then have "bindWikipediaAutosuggest s2n os now typed st =
     Inr \<lparr>lastState = ?s, activeIndex = - 1,
          inputValue = (case r of Some v \<Rightarrow> restored_term v | None \<Rightarrow> typed),
          lastTerm = None, pending = None, requests = [], store = st'\<rparr>"
    by (simp add: bindWikipediaAutosuggest_def assms(1) render Let_def initialState_of_def)
  then show ?thesis ..
qed

lemma bind_throws:
  assumes "loadPersisted s2n now st = Inr (st1, Some v)"
    and "renderSuggestions (get_prop v ''items'') = Inl e"
  shows "bindWikipediaAutosuggest s2n os now typed st = Inl e"
  by (simp add: bindWikipediaAutosuggest_def assms Let_def)

lemma bind_started:
  assumes "bindWikipediaAutosuggest s2n os now typed st = Inr w0"
  shows "activeIndex w0 = - 1 \<and> pending w0 = None \<and> requests w0 = [] \<and> lastTerm w0 = None"
proof -
  obtain st1 r where load: "loadPersisted s2n now st = Inr (st1, r)"
    using loadPersisted_total by blast
  show ?thesis
  proof (cases "case r of None \<Rightarrow> True | Some v \<Rightarrow> renderSuggestions (get_prop v ''items'') = Inr ()")
    case True
    from bind_result [OF load True, of os typed] assms show ?thesis by auto
  next
    case False
    then obtain v e where "r = Some v" "renderSuggestions (get_prop v ''items'') = Inl e"
      by (cases r; cases "renderSuggestions (get_prop (the r) ''items'')") auto
    with bind_throws [of s2n now st st1 v e os typed] load assms show ?thesis by simp
  qed
qed

lemma step_cursor:
  assumes "- 1 \<le> activeIndex w \<and> activeIndex w \<le> int (length (items_of (lastState w))) - 1"
    and "step c now ev w = Inr w'"
  shows "- 1 \<le> activeIndex w' \<and> activeIndex w' \<le> int (length (items_of (lastState w'))) - 1"
proof (cases rule: step_elim [of ev w c now])
  case (dup v)
  with assms show ?thesis by simp
next
  case (idle v st')
  with assms(2) show ?thesis by auto
next
  case (loading v st')
  with assms(2) show ?thesis by auto
next
  case (stale n r)
  with assms show ?thesis by simp
next
  case (dead n r t)
  with assms show ?thesis by simp
next
  case (answer n r t st')
  with assms(2) show ?thesis by auto
next
  case (cursor k)
  with assms have "w' = w\<lparr>activeIndex :=
                  (case k of
                     ArrowDown \<Rightarrow> min (activeIndex w + 1) (int (length (items_of (lastState w))) - 1)
                   | ArrowUp \<Rightarrow> max (activeIndex w - 1) (- 1)
                   | Escape \<Rightarrow> - 1
                   | _ \<Rightarrow> activeIndex w)\<rparr>" by simp
  with assms(1) show ?thesis by (cases k) simp_all
next
  case (enter st')
  with assms show ?thesis by (simp split: if_splits)
next
  case (click i st')
  with assms show ?thesis by (simp split: if_splits)
next
  case (input raw)
  with assms show ?thesis by auto
qed

lemma run_cursor:
  assumes "- 1 \<le> activeIndex w \<and> activeIndex w \<le> int (length (items_of (lastState w))) - 1"
  shows "\<exists>w'. run c w evs = Inr w'
           \<and> - 1 \<le> activeIndex w' \<and> activeIndex w' \<le> int (length (items_of (lastState w'))) - 1"
proof -
  obtain w' where r: "run c w evs = Inr w'" using run_total by blast
  have "- 1 \<le> activeIndex w' \<and> activeIndex w' \<le> int (length (items_of (lastState w'))) - 1"
  proof (rule run_invariant [where P = "\<lambda>w. - 1 \<le> activeIndex w \<and>
            activeIndex w \<le> int (length (items_of (lastState w))) - 1", OF _ _ r])
    show "- 1 \<le> activeIndex w \<and> activeIndex w \<le> int (length (items_of (lastState w))) - 1"
      by (rule assms)
  next
    fix now ev w w'
    assume "- 1 \<le> activeIndex w \<and> activeIndex w \<le> int (length (items_of (lastState w))) - 1"
      and "step c now ev w = Inr w'"
    then show "- 1 \<le> activeIndex w' \<and> activeIndex w' \<le> int (length (items_of (lastState w'))) - 1"
      by (rule step_cursor)
  qed
  with r show ?thesis by blast
qed

text \<open>
  C8. Once the widget is bound the cursor is \<open>-1\<close>, and after every sequence of events
  (edits, settled terms, provider answers, keys, clicks) it lies between \<open>-1\<close> and
  \<open>length items - 1\<close> for the items of the current state. Every state emission
  resets it to \<open>-1\<close>; ArrowDown sets it to \<open>min (cursor + 1) (length items - 1)\<close>,
  ArrowUp to \<open>max (cursor - 1) (-1)\<close>, Escape to \<open>-1\<close>.
\<close>

theorem cursor_in_range:
  assumes "bindWikipediaAutosuggest s2n os now typed st = Inr w0"
  shows "activeIndex w0 = - 1
     \<and> (\<forall>evs. \<exists>w. run (config_of os) w0 evs = Inr w
           \<and> - 1 \<le> activeIndex w \<and> activeIndex w \<le> int (length (items_of (lastState w))) - 1)
     \<and> (\<exists>w'. subscriber c now' s w1 = Inr w' \<and> lastState w' = s \<and> activeIndex w' = - 1)
     \<and> onKey c now' ArrowDown w1 =
          Inr (w1\<lparr>activeIndex := min (activeIndex w1 + 1) (int (length (items_of (lastState w1))) - 1)\<rparr>)
     \<and> onKey c now' ArrowUp w1 = Inr (w1\<lparr>activeIndex := max (activeIndex w1 - 1) (- 1)\<rparr>)
     \<and> onKey c now' Escape w1 = Inr (w1\<lparr>activeIndex := - 1\<rparr>)"
proof -
  from bind_started [OF assms] have a0: "activeIndex w0 = - 1" by simp
  have ok0: "- 1 \<le> activeIndex w0 \<and> activeIndex w0 \<le> int (length (items_of (lastState w0))) - 1"
    using a0 by simp
  have inv: "\<forall>evs. \<exists>w. run (config_of os) w0 evs = Inr w
           \<and> - 1 \<le> activeIndex w \<and> activeIndex w \<le> int (length (items_of (lastState w))) - 1"
    using run_cursor [OF ok0] by blast
  obtain st2 where "subscriber c now' s w1 = Inr (w1\<lparr>lastState := s, activeIndex := - 1, store := st2\<rparr>)"
    using subscriber_result by blast
  then have sub: "\<exists>w'. subscriber c now' s w1 = Inr w' \<and> lastState w' = s \<and> activeIndex w' = - 1"
    by simp
  show ?thesis
    using a0 inv sub onKey_other(2-4) [of c now' w1] by blast
qed

lemma bind_fresh:
  "bindWikipediaAutosuggest s2n default_opts now [] empty_storage = Inr fresh_widget"
  by (simp add: bindWikipediaAutosuggest_def loadPersisted_def getItem_def empty_storage_def
      fresh_widget_def subscriber_def Let_def clearPersisted_def removeItem_def
      config_of_def default_opts_def initialState_of_def)

theorem cursor_in_range_witness:
  "bindWikipediaAutosuggest (\<lambda>z. NaN) default_opts 1000 [] empty_storage = Inr fresh_widget
   \<and> activeIndex fresh_widget = - 1
   \<and> (\<forall>evs. \<exists>w. run (config_of default_opts) fresh_widget evs = Inr w
         \<and> - 1 \<le> activeIndex w \<and> activeIndex w \<le> int (length (items_of (lastState w))) - 1)
   \<and> (\<exists>w'. subscriber (config_of default_opts) 2000 (Loading ''cat'' []) fresh_widget = Inr w'
         \<and> lastState w' = Loading ''cat'' [] \<and> activeIndex w' = - 1)
   \<and> onKey (config_of default_opts) 2000 ArrowDown fresh_widget =
        Inr (fresh_widget\<lparr>activeIndex := min (activeIndex fresh_widget + 1)
               (int (length (items_of (lastState fresh_widget))) - 1)\<rparr>)
   \<and> onKey (config_of default_opts) 2000 ArrowUp fresh_widget =
        Inr (fresh_widget\<lparr>activeIndex := max (activeIndex fresh_widget - 1) (- 1)\<rparr>)
   \<and> onKey (config_of default_opts) 2000 Escape fresh_widget =
        Inr (fresh_widget\<lparr>activeIndex := - 1\<rparr>)
   \<and> map_sum id activeIndex (run (config_of default_opts) fresh_widget
         [(1, Debounced ''cat''), (2, Response 0 (Inr cat_response)),
          (3, KeyDown ArrowDown), (4, KeyDown ArrowDown), (5, KeyDown ArrowDown),
          (6, KeyDown ArrowUp)]) = Inr 0"
proof -
  have b: "bindWikipediaAutosuggest (\<lambda>z. NaN) default_opts 1000 [] empty_storage = Inr fresh_widget"
    by (rule bind_fresh)
  have "map_sum id activeIndex (run (config_of default_opts) fresh_widget
         [(1, Debounced ''cat''), (2, Response 0 (Inr cat_response)),
          (3, KeyDown ArrowDown), (4, KeyDown ArrowDown), (5, KeyDown ArrowDown),
          (6, KeyDown ArrowUp)]) = Inr 0"
    by code_simp
  with b cursor_in_range [OF b, of "config_of default_opts" 2000 "Loading ''cat'' []" fresh_widget]
  show ?thesis by blast
qed

section \<open>Only the latest settled term produces the state\<close>

lemma answer_states_term: "s \<in> set (answer_states B b evs) \<Longrightarrow> term_of s = B"
proof (induction evs)
  case Nil
  then show ?case by simp
next
  case (Cons e evs)
  show ?case
  proof (cases "snd e")
    case (Response m r)
    with Cons show ?thesis by (cases r) (auto split: if_splits)
  qed (use Cons in auto)
qed

lemma step_pending_issued:
  assumes "\<forall>a t. pending w = Some (a, t) \<longrightarrow> a < length (requests w)"
    and "step c now ev w = Inr w'"
  shows "\<forall>a t. pending w' = Some (a, t) \<longrightarrow> a < length (requests w')"
proof (cases rule: step_elim [of ev w c now])
  case (dup v)
  with assms show ?thesis by simp
next
  case (idle v st')
  with assms(2) show ?thesis by auto
next
  case (loading v st')
  with assms(2) show ?thesis by auto
next
  case (stale n r)
  with assms show ?thesis by simp
next
  case (dead n r t)
  with assms show ?thesis by simp
next
  case (answer n r t st')
  with assms(2) show ?thesis by auto
next
  case (cursor k)
  with assms show ?thesis by auto
next
  case (enter st')
  with assms show ?thesis by (auto split: if_splits)
next
  case (click i st')
  with assms show ?thesis by (auto split: if_splits)
next
  case (input raw)
  with assms show ?thesis by auto
qed

lemma step_latest:
  assumes lt: "lastTerm w = Some B"
    and pd: "pending w = None \<or> pending w = Some (b, B)"
    and q: "\<forall>v. ev = Debounced v \<longrightarrow> v = B"
  shows "\<exists>w1. step c now ev w = Inr w1 \<and> lastTerm w1 = Some B
           \<and> (pending w1 = None \<or> pending w1 = Some (b, B))
           \<and> (lastState w1 = lastState w
                \<or> lastState w1 \<in> set (answer_states B b [(now, ev)]))"
proof (cases rule: step_elim [of ev w c now])
  case (dup v)
  with lt pd show ?thesis by simp
next
  case (idle v st')
  with lt q show ?thesis by simp
next
  case (loading v st')
  with lt q show ?thesis by simp
next
  case (stale n r)
  with lt pd show ?thesis by simp
next
  case (dead n r t)
  with lt pd show ?thesis by simp
next
  case (answer n r t st')
  with pd have "n = b" "t = B" by auto
  with answer lt show ?thesis by (cases r) simp_all
next
  case (cursor k)
  with lt pd show ?thesis by simp
next
  case (enter st')
  with lt pd show ?thesis by simp
next
  case (click i st')
  with lt pd show ?thesis by simp
next
  case (input raw)
  with lt pd show ?thesis by simp
qed

lemma answer_states_Cons:
  "set (answer_states B b [e]) \<union> set (answer_states B b evs) = set (answer_states B b (e # evs))"
  by simp

lemma run_latest:
  assumes "lastTerm w = Some B"
    and "pending w = None \<or> pending w = Some (b, B)"
    and "\<forall>e\<in>set evs. \<forall>v. snd e = Debounced v \<longrightarrow> v = B"
  shows "\<exists>w2. run c w evs = Inr w2
           \<and> (lastState w2 = lastState w \<or> lastState w2 \<in> set (answer_states B b evs))"
  using assms
proof (induction evs arbitrary: w)
  case Nil
  then show ?case by simp
next
  case (Cons a evs)
  obtain now ev where a: "a = (now, ev)" by (cases a)
  from Cons.prems(3) a have q: "\<forall>v. ev = Debounced v \<longrightarrow> v = B" by simp
  from step_latest [OF Cons.prems(1,2) q, of c now] obtain w1 where
    s: "step c now ev w = Inr w1" and lt: "lastTerm w1 = Some B"
    and pd: "pending w1 = None \<or> pending w1 = Some (b, B)"
    and ls: "lastState w1 = lastState w \<or> lastState w1 \<in> set (answer_states B b [(now, ev)])"
    by blast
  from Cons.prems(3) have "\<forall>e\<in>set evs. \<forall>v. snd e = Debounced v \<longrightarrow> v = B" by simp
  from Cons.IH [OF lt pd this] obtain w2 where
    r: "run c w1 evs = Inr w2"
    and l2: "lastState w2 = lastState w1 \<or> lastState w2 \<in> set (answer_states B b evs)"
    by blast
  from r s a have "run c w (a # evs) = Inr w2" by simp
  moreover from ls l2 have "lastState w2 = lastState w \<or> lastState w2 \<in> set (answer_states B b (a # evs))"
    using answer_states_Cons [of B b a evs] a by auto
  ultimately show ?case by blast
qed

lemma run_pending_issued:
  assumes "bindWikipediaAutosuggest s2n os t0 typed st = Inr w0"
    and "run c w0 evs0 = Inr w"
  shows "\<forall>a t. pending w = Some (a, t) \<longrightarrow> a < length (requests w)"
proof (rule run_invariant [where P = "\<lambda>w. \<forall>a t. pending w = Some (a, t) \<longrightarrow> a < length (requests w)",
      OF _ _ assms(2)])
  from bind_started [OF assms(1)] have "pending w0 = None" by simp
  then show "\<forall>a t. pending w0 = Some (a, t) \<longrightarrow> a < length (requests w0)" by simp
next
  fix now ev w w'
  assume "\<forall>a t. pending w = Some (a, t) \<longrightarrow> a < length (requests w)"
    and "step c now ev w = Inr w'"
  then show "\<forall>a t. pending w' = Some (a, t) \<longrightarrow> a < length (requests w')"
    by (rule step_pending_issued)
qed

text \<open>
  C1. Take any history of the bound widget after which a search for a term \<open>A\<close> is
  pending (request number \<open>a\<close>), let a different term \<open>B\<close> settle, and let any
  events follow in which no other term settles: answers to any request, in any order,
  keys and clicks. The state right after \<open>B\<close> settles has term \<open>B\<close>, and so has the
  state at the end, which is \<open>Idle B []\<close>, \<open>Loading B []\<close> or what an answer to
  \<open>B\<close>'s own request gives; that request's number is not \<open>a\<close>, so an answer to
  the search for \<open>A\<close> never becomes the current state.
\<close>

theorem latest_term_wins:
  assumes start: "bindWikipediaAutosuggest s2n os t0 typed st = Inr w0"
    and history: "run (config_of os) w0 evs0 = Inr w"
    and inflight: "pending w = Some (a, A)"
    and settles: "lastTerm w \<noteq> Some B"
    and later: "\<forall>e\<in>set evs. \<forall>v. snd e = Debounced v \<longrightarrow> v = B"
  shows "\<exists>w1 w2. step (config_of os) now (Debounced B) w = Inr w1
           \<and> term_of (lastState w1) = B
           \<and> run (config_of os) w1 evs = Inr w2
           \<and> term_of (lastState w2) = B
           \<and> a < length (requests w)
           \<and> lastState w2 \<in> set ([Idle B [], Loading B []] @ answer_states B (length (requests w)) evs)"
proof -
  let ?c = "config_of os"
  let ?b = "length (requests w)"
  have fresh: "a < ?b"
    using run_pending_issued [OF start history] inflight by blast
  have "\<exists>w1. step ?c now (Debounced B) w = Inr w1 \<and> lastTerm w1 = Some B
          \<and> (pending w1 = None \<or> pending w1 = Some (?b, B))
          \<and> (lastState w1 = Idle B [] \<or> lastState w1 = Loading B [])"
  proof (cases "int (length B) < minLength ?c")
    case True
    from step_Debounced_short [OF settles True, of now] show ?thesis by auto
  next
    case False
    from step_Debounced_long [OF settles False, of now] show ?thesis by auto
  qed
  then obtain w1 where s: "step ?c now (Debounced B) w = Inr w1"
    and lt: "lastTerm w1 = Some B"
    and pd: "pending w1 = None \<or> pending w1 = Some (?b, B)"
    and l1: "lastState w1 = Idle B [] \<or> lastState w1 = Loading B []"
    by blast
  from run_latest [OF lt pd later, of ?c] obtain w2 where
    r: "run ?c w1 evs = Inr w2"
    and l2: "lastState w2 = lastState w1 \<or> lastState w2 \<in> set (answer_states B ?b evs)"
    by blast
  from l1 have t1: "term_of (lastState w1) = B" by auto
  from l1 l2 have mem: "lastState w2 \<in> set ([Idle B [], Loading B []] @ answer_states B ?b evs)"
    by auto
  have t2: "term_of (lastState w2) = B"
    using l2 t1 answer_states_term [of "lastState w2" B ?b evs] by auto
  show ?thesis using s t1 r t2 fresh mem by blast
qed

lemma cat_settles:
  "run (config_of default_opts) fresh_widget [(1, Debounced ''cat'')] =
     Inr \<lparr>lastState = Loading ''cat'' [], activeIndex = - 1, inputValue = [],
          lastTerm = Some ''cat'', pending = Some (0, ''cat''), requests = [(''cat'', 10)],
          store = empty_storage\<rparr>"
  by (simp add: step_def onTerm_def project_def startWith_def catchError_def map_obs_def
      searchWikipedia_def subscriber_def Let_def fresh_widget_def config_of_def default_opts_def)

theorem latest_term_wins_witness:
  "(\<exists>w1 w2.
      step (config_of default_opts) 2 (Debounced ''dog'')
        \<lparr>lastState = Loading ''cat'' [], activeIndex = - 1, inputValue = [],
         lastTerm = Some ''cat'', pending = Some (0, ''cat''), requests = [(''cat'', 10)],
         store = empty_storage\<rparr> = Inr w1
      \<and> term_of (lastState w1) = ''dog''
      \<and> run (config_of default_opts) w1
            [(3, Response 1 (Inr (''dog'', [''Dog''], [''d''], [''u'']))),
             (4, Response 0 (Inr cat_response))] = Inr w2
      \<and> term_of (lastState w2) = ''dog''
      \<and> (0::nat) < length [(''cat'', 10::int)]
      \<and> lastState w2 \<in> set ([Idle ''dog'' [], Loading ''dog'' []] @
            answer_states ''dog'' (length [(''cat'', 10::int)])
              [(3, Response 1 (Inr (''dog'', [''Dog''], [''d''], [''u'']))),
               (4, Response 0 (Inr cat_response))]))
   \<and> map_sum id lastState (run (config_of default_opts) fresh_widget
        [(1, Debounced ''cat''), (2, Debounced ''dog''),
         (3, Response 1 (Inr (''dog'', [''Dog''], [''d''], [''u'']))),
         (4, Response 0 (Inr cat_response))])
      = Inr (Done ''dog'' [\<lparr>title = ''Dog'', description = Some ''d'', url = Some ''u''\<rparr>])"
proof -
  let ?w = "\<lparr>lastState = Loading ''cat'' [], activeIndex = - 1, inputValue = [],
         lastTerm = Some ''cat'', pending = Some (0, ''cat''), requests = [(''cat'', 10)],
         store = empty_storage\<rparr>"
  have start: "bindWikipediaAutosuggest (\<lambda>z. NaN) default_opts 0 [] empty_storage = Inr fresh_widget"
    by (rule bind_fresh)
  have inflight: "pending ?w = Some (0, ''cat'')" by simp
  have settles: "lastTerm ?w \<noteq> Some ''dog''" by simp
  have later: "\<forall>e\<in>set [(3::int, Response 1 (Inr (''dog'', [''Dog''], [''d''], [''u'']))),
             (4, Response 0 (Inr cat_response))]. \<forall>v. snd e = Debounced v \<longrightarrow> v = ''dog''"
    by simp
  have run_all: "map_sum id lastState (run (config_of default_opts) fresh_widget
        [(1, Debounced ''cat''), (2, Debounced ''dog''),
         (3, Response 1 (Inr (''dog'', [''Dog''], [''d''], [''u'']))),
         (4, Response 0 (Inr cat_response))])
      = Inr (Done ''dog'' [\<lparr>title = ''Dog'', description = Some ''d'', url = Some ''u''\<rparr>])"
    by code_simp
  from latest_term_wins [OF start cat_settles inflight settles later, of 2] run_all
  show ?thesis by simp
qed

section \<open>The persisted snapshot\<close>

lemma loadPersisted_unreadable:
  "getFails st \<Longrightarrow> loadPersisted s2n now st = Inr (st, None)"
  by (simp add: loadPersisted_def getItem_def)

lemma loadPersisted_absent:
  "\<not> getFails st \<Longrightarrow> entries st STORAGE_KEY = None \<Longrightarrow>
   loadPersisted s2n now st = Inr (st, None)"
  by (simp add: loadPersisted_def getItem_def)

lemma has_property_truthy: "get_prop v k = Some x \<Longrightarrow> truthy v"
  by (cases v) simp_all

lemma loadPersisted_checked:
  assumes "\<not> getFails st" and "entries st STORAGE_KEY = Some (Serialized v)"
    and "get_prop v ''term'' = Some (JStr s)" and "isArray (get_prop v ''items'')"
  shows "loadPersisted s2n now st =
     (case ToNumber s2n (get_prop v ''savedAt'') of
        Inl e \<Rightarrow> Inr (st, None)
      | Inr saved \<Rightarrow>
          if js_greater (js_minus (Num now) saved) (Num PERSIST_TTL_MS)
          then Inr (if removeFails st then st
                    else st\<lparr>entries := (entries st)(STORAGE_KEY := None)\<rparr>, None)
          else Inr (st, Some v))"
  using assms has_property_truthy [OF assms(3)]
  by (simp add: loadPersisted_def getItem_def JSON_parse_def removeItem_def split: sum.splits)

lemma loadPersisted_part_000_checked:
  assumes "\<not> getFails st" and "entries st STORAGE_KEY = Some (Serialized v)"
    and "get_prop v ''term'' = Some (JStr s)" and "isArray (get_prop v ''items'')"
  shows "loadPersisted_part_000 st = Inr (st, Some v)"
  using assms has_property_truthy [OF assms(3)]
  by (simp add: loadPersisted_part_000_def getItem_def JSON_parse_def)

lemma renderSuggestions_items [simp]: "renderSuggestions (Some (JItems xs)) = Inr ()"
  by (simp add: renderSuggestions_def)

text \<open>
  The read of \<^verbatim>\<open>src/unnamed/part_001\<close>, which has the retention window of 30
  minutes. Let a readable store hold a record whose \<open>term\<close> is a string, whose
  \<open>items\<close> is an array and whose \<open>savedAt\<close> is a number. If \<open>now - savedAt\<close>
  exceeds the window, the read gives nothing, the record is removed from the store (when
  the store's removal works), and the widget starts idle with the empty term and no
  items. If \<open>now - savedAt\<close> is at most the window, the read returns the record, and
  when its items are suggestion objects the widget starts in \<open>Done term items\<close>, the
  input holding the term.
\<close>

lemma loadPersisted_window:
  assumes "\<not> getFails st" and "entries st STORAGE_KEY = Some (Serialized v)"
    and "get_prop v ''term'' = Some (JStr s)" and "isArray (get_prop v ''items'')"
    and "get_prop v ''savedAt'' = Some (JNum saved)"
  shows "PERSIST_TTL_MS = 30 * 60 * 1000
    \<and> (now - saved > PERSIST_TTL_MS \<longrightarrow>
         (\<exists>st'. loadPersisted s2n now st = Inr (st', None)
            \<and> (\<not> removeFails st \<longrightarrow> entries st' STORAGE_KEY = None))
         \<and> (\<exists>w0. bindWikipediaAutosuggest s2n os now typed st = Inr w0
              \<and> lastState w0 = Idle [] []))
    \<and> (now - saved \<le> PERSIST_TTL_MS \<longrightarrow>
         loadPersisted s2n now st = Inr (st, Some v)
         \<and> (\<forall>xs. get_prop v ''items'' = Some (JItems xs) \<longrightarrow>
              (\<exists>w0. bindWikipediaAutosuggest s2n os now typed st = Inr w0
                 \<and> lastState w0 = Done s xs \<and> inputValue w0 = s)))"
proof -
  note lp = loadPersisted_checked [OF assms(1-4), of s2n now]
  have old: "\<exists>st'. loadPersisted s2n now st = Inr (st', None)
            \<and> (\<not> removeFails st \<longrightarrow> entries st' STORAGE_KEY = None)"
    if "now - saved > PERSIST_TTL_MS"
    using lp that assms(5) by simp
  have old_bind: "\<exists>w0. bindWikipediaAutosuggest s2n os now typed st = Inr w0
              \<and> lastState w0 = Idle [] []"
    if "now - saved > PERSIST_TTL_MS"
  proof -
    from old [OF that] obtain st' where "loadPersisted s2n now st = Inr (st', None)" by blast
    from bind_result [OF this, of os typed] show ?thesis by auto
  qed
  have fresh: "loadPersisted s2n now st = Inr (st, Some v)"
    if "now - saved \<le> PERSIST_TTL_MS"
    using lp that assms(5) by simp
  have fresh_bind: "\<exists>w0. bindWikipediaAutosuggest s2n os now typed st = Inr w0
              \<and> lastState w0 = Done s xs \<and> inputValue w0 = s"
    if "now - saved \<le> PERSIST_TTL_MS" and "get_prop v ''items'' = Some (JItems xs)" for xs
  proof -
    have "case Some v of None \<Rightarrow> True
          | Some v \<Rightarrow> renderSuggestions (get_prop v ''items'') = Inr ()"
      using that(2) by simp
    from bind_result [OF fresh [OF that(1)] this, of os typed] assms(3) that(2)
    show ?thesis by (auto simp: restored_term_def restored_items_def)
  qed
  show ?thesis
    using old old_bind fresh fresh_bind by (simp add: PERSIST_TTL_MS_def)
qed

text \<open>
  C6. A persisted snapshot older than the retention window of 30 minutes is to be
  treated as absent by the startup read, and deleted. The read of
  \<^verbatim>\<open>src/unnamed/part_001\<close> does so; the read of \<^verbatim>\<open>src/unnamed/part_000\<close> does
  not. The store holds the snapshot of the term \<open>cat\<close> with one item, saved at
  1000000. Read 31 minutes later, at 2860000, by the read of \<^verbatim>\<open>part_001\<close>, the
  snapshot is gone from the store and nothing is returned. The read of
  \<^verbatim>\<open>part_000\<close> never looks at the time: it returns the snapshot and leaves the
  store as it is, and the draft starts in \<open>Done cat\<close> with that item.
\<close>

theorem part_000_read_ignores_age:
  "loadPersisted (\<lambda>z. NaN) 2860000
      (empty_storage\<lparr>entries := (entries empty_storage)(STORAGE_KEY :=
         Some (JSON_stringify \<lparr>term_p = ''cat'',
           items_p = [\<lparr>title = ''Cat'', description = None, url = Some ''https://x/Cat''\<rparr>],
           savedAt = 1000000\<rparr>))\<rparr>)
    = Inr (empty_storage\<lparr>entries := (entries empty_storage)(STORAGE_KEY := None)\<rparr>, None)
   \<and> loadPersisted_part_000
      (empty_storage\<lparr>entries := (entries empty_storage)(STORAGE_KEY :=
         Some (JSON_stringify \<lparr>term_p = ''cat'',
           items_p = [\<lparr>title = ''Cat'', description = None, url = Some ''https://x/Cat''\<rparr>],
           savedAt = 1000000\<rparr>))\<rparr>)
    = Inr (empty_storage\<lparr>entries := (entries empty_storage)(STORAGE_KEY :=
         Some (JSON_stringify \<lparr>term_p = ''cat'',
           items_p = [\<lparr>title = ''Cat'', description = None, url = Some ''https://x/Cat''\<rparr>],
           savedAt = 1000000\<rparr>))\<rparr>,
        Some (JObj [(''term'', JStr ''cat''),
          (''items'', JItems [\<lparr>title = ''Cat'', description = None, url = Some ''https://x/Cat''\<rparr>]),
          (''savedAt'', JNum 1000000)]))
   \<and> initialState_part_000
      (empty_storage\<lparr>entries := (entries empty_storage)(STORAGE_KEY :=
         Some (JSON_stringify \<lparr>term_p = ''cat'',
           items_p = [\<lparr>title = ''Cat'', description = None, url = Some ''https://x/Cat''\<rparr>],
           savedAt = 1000000\<rparr>))\<rparr>)
    = Inr (Done ''cat'' [\<lparr>title = ''Cat'', description = None, url = Some ''https://x/Cat''\<rparr>])"
proof -
  let ?xs = "[\<lparr>title = ''Cat'', description = None, url = Some ''https://x/Cat''\<rparr>]"
  let ?v = "JObj [(''term'', JStr ''cat''), (''items'', JItems ?xs), (''savedAt'', JNum 1000000)]"
  let ?st = "empty_storage\<lparr>entries := (entries empty_storage)(STORAGE_KEY :=
         Some (JSON_stringify \<lparr>term_p = ''cat'', items_p = ?xs, savedAt = 1000000\<rparr>))\<rparr>"
  have g: "\<not> getFails ?st" by (simp add: empty_storage_def)
  have r: "\<not> removeFails ?st" by (simp add: empty_storage_def)
  have e: "entries ?st STORAGE_KEY = Some (Serialized ?v)" by (simp add: JSON_stringify_def)
  have t: "get_prop ?v ''term'' = Some (JStr ''cat'')" by simp
  have i: "isArray (get_prop ?v ''items'')" by simp
  have later: "loadPersisted (\<lambda>z. NaN) 2860000 ?st
      = Inr (empty_storage\<lparr>entries := (entries empty_storage)(STORAGE_KEY := None)\<rparr>, None)"
    using loadPersisted_checked [OF g e t i, of "\<lambda>z. NaN" 2860000] r
    by (simp add: PERSIST_TTL_MS_def)
  have draft: "loadPersisted_part_000 ?st = Inr (?st, Some ?v)"
    by (rule loadPersisted_part_000_checked [OF g e t i])
  have start: "initialState_part_000 ?st = Inr (Done ''cat'' ?xs)"
    by (simp add: initialState_part_000_def draft initialState_of_def restored_term_def
        restored_items_def)
  from later draft start show ?thesis by simp
qed

theorem part_000_read_ignores_age_witness:
  "map_sum id snd (loadPersisted_part_000
      (empty_storage\<lparr>entries := (entries empty_storage)(STORAGE_KEY :=
         Some (JSON_stringify \<lparr>term_p = ''cat'',
           items_p = [\<lparr>title = ''Cat'', description = None, url = Some ''https://x/Cat''\<rparr>],
           savedAt = 1000000\<rparr>))\<rparr>))
   \<noteq> map_sum id snd (loadPersisted (\<lambda>z. NaN) 2860000
      (empty_storage\<lparr>entries := (entries empty_storage)(STORAGE_KEY :=
         Some (JSON_stringify \<lparr>term_p = ''cat'',
           items_p = [\<lparr>title = ''Cat'', description = None, url = Some ''https://x/Cat''\<rparr>],
           savedAt = 1000000\<rparr>))\<rparr>))"
  using part_000_read_ignores_age by simp

text \<open>
  A stored array can hold \<^verbatim>\<open>null\<close>. The read, which checks only that \<open>items\<close> is
  an array, returns such a record while it is young; rendering its items then throws, and
  binding ends with that \<^verbatim>\<open>TypeError\<close>: no initial state is seeded.
\<close>

lemma null_item_stops_binding:
  "loadPersisted (\<lambda>z. NaN) 1600000
      (empty_storage\<lparr>entries := (entries empty_storage)(STORAGE_KEY :=
         Some (Serialized (JObj [(''term'', JStr ''cat''), (''items'', JArr [JNull]),
           (''savedAt'', JNum 1000000)])))\<rparr>)
    = Inr (empty_storage\<lparr>entries := (entries empty_storage)(STORAGE_KEY :=
         Some (Serialized (JObj [(''term'', JStr ''cat''), (''items'', JArr [JNull]),
           (''savedAt'', JNum 1000000)])))\<rparr>,
        Some (JObj [(''term'', JStr ''cat''), (''items'', JArr [JNull]),
           (''savedAt'', JNum 1000000)]))
   \<and> bindWikipediaAutosuggest (\<lambda>z. NaN) default_opts 1600000 []
      (empty_storage\<lparr>entries := (entries empty_storage)(STORAGE_KEY :=
         Some (Serialized (JObj [(''term'', JStr ''cat''), (''items'', JArr [JNull]),
           (''savedAt'', JNum 1000000)])))\<rparr>)
    = Inl (ErrorObject ''TypeError'')"
proof -
  let ?v = "JObj [(''term'', JStr ''cat''), (''items'', JArr [JNull]), (''savedAt'', JNum 1000000)]"
  let ?st = "empty_storage\<lparr>entries := (entries empty_storage)(STORAGE_KEY :=
         Some (Serialized ?v))\<rparr>"
  have g: "\<not> getFails ?st" by (simp add: empty_storage_def)
  have e: "entries ?st STORAGE_KEY = Some (Serialized ?v)" by simp
  have t: "get_prop ?v ''term'' = Some (JStr ''cat'')" by simp
  have i: "isArray (get_prop ?v ''items'')" by simp
  have load: "loadPersisted (\<lambda>z. NaN) 1600000 ?st = Inr (?st, Some ?v)"
    using loadPersisted_checked [OF g e t i, of "\<lambda>z. NaN" 1600000]
    by (simp add: PERSIST_TTL_MS_def)
  have "renderSuggestions (get_prop ?v ''items'') = Inl (ErrorObject ''TypeError'')"
    by (simp add: renderSuggestions_def)
  from bind_throws [OF load this, of default_opts "[]"] load show ?thesis by simp
qed

section \<open>Failures of the backing store\<close>

lemma step_in_memory:
  assumes "in_memory w = in_memory u"
  shows "\<exists>w' u'. step c now ev w = Inr w' \<and> step c now ev u = Inr u' \<and> in_memory w' = in_memory u'"
proof -
  from assms have eqs: "lastState u = lastState w" "activeIndex u = activeIndex w"
    "inputValue u = inputValue w" "lastTerm u = lastTerm w" "pending u = pending w"
    "requests u = requests w"
    by (simp_all add: in_memory_def)
  show ?thesis
    by (cases rule: step_elim [of ev w c now]; cases rule: step_elim [of ev u c now])
       (auto simp: in_memory_def eqs cong: key.case_cong)
qed

lemma run_in_memory:
  assumes "in_memory w = in_memory u"
  shows "\<exists>w' u'. run c w evs = Inr w' \<and> run c u evs = Inr u' \<and> in_memory w' = in_memory u'"
  using assms
proof (induction evs arbitrary: w u)
  case Nil
  then show ?case by simp
next
  case (Cons a evs)
  obtain now ev where a: "a = (now, ev)" by (cases a)
  from step_in_memory [OF Cons.prems, of c now ev] obtain w1 u1 where
    "step c now ev w = Inr w1" "step c now ev u = Inr u1" "in_memory w1 = in_memory u1"
    by blast
  with Cons.IH [of w1 u1] a show ?case by simp
qed

text \<open>
  C9. Whatever the backing store does, \<open>savePersisted\<close> and \<open>clearPersisted\<close> return
  normally (leaving the store as it is when its operation throws), \<open>loadPersisted\<close>
  returns normally, with nothing when the read throws, and the store has no influence on
  what the widget holds in memory: run from the same in-memory state over the same events,
  the widget ends in the same in-memory state with any other store in place of its own;
  binding on a store whose read throws gives the same in-memory state as binding on an
  empty store.
\<close>

theorem storage_failures_swallowed:
  "(\<exists>st'. savePersisted v st = Inr st') \<and> (setFails st \<longrightarrow> savePersisted v st = Inr st)
   \<and> (\<exists>st'. clearPersisted st = Inr st') \<and> (removeFails st \<longrightarrow> clearPersisted st = Inr st)
   \<and> (\<exists>st' r. loadPersisted s2n now st = Inr (st', r))
   \<and> (getFails st \<longrightarrow> loadPersisted s2n now st = Inr (st, None))
   \<and> (\<exists>w1 w2. run c w evs = Inr w1 \<and> run c (w\<lparr>store := st\<rparr>) evs = Inr w2
         \<and> in_memory w1 = in_memory w2)
   \<and> (getFails st \<longrightarrow>
        (\<exists>w1 w2. bindWikipediaAutosuggest s2n os now typed st = Inr w1
           \<and> bindWikipediaAutosuggest s2n os now typed empty_storage = Inr w2
           \<and> in_memory w1 = in_memory w2))"
proof -
  have mem: "in_memory w = in_memory (w\<lparr>store := st\<rparr>)"
    by (simp add: in_memory_def)
  have runs: "\<exists>w1 w2. run c w evs = Inr w1 \<and> run c (w\<lparr>store := st\<rparr>) evs = Inr w2
         \<and> in_memory w1 = in_memory w2"
    using run_in_memory [OF mem] .
  have binds: "\<exists>w1 w2. bindWikipediaAutosuggest s2n os now typed st = Inr w1
           \<and> bindWikipediaAutosuggest s2n os now typed empty_storage = Inr w2
           \<and> in_memory w1 = in_memory w2" if "getFails st"
  proof -
    have l1: "loadPersisted s2n now st = Inr (st, None)"
      using that by (rule loadPersisted_unreadable)
    have l2: "loadPersisted s2n now empty_storage = Inr (empty_storage, None)"
      by (rule loadPersisted_absent) (simp_all add: empty_storage_def)
    have n: "case None :: jsvalue option of None \<Rightarrow> True
          | Some v \<Rightarrow> renderSuggestions (get_prop v ''items'') = Inr ()"
      by simp
    from bind_result [OF l1 n, of os typed] bind_result [OF l2 n, of os typed]
    show ?thesis by (auto simp: in_memory_def)
  qed
  show ?thesis
    using savePersisted_total [of v st] clearPersisted_total [of st]
      loadPersisted_total [of s2n now st] loadPersisted_unreadable [of st s2n now] runs binds
    by (simp add: savePersisted_result clearPersisted_result)
qed

theorem storage_failures_swallowed_witness:
  "(\<exists>st'. savePersisted \<lparr>term_p = ''cat'', items_p = [], savedAt = 1000\<rparr>
        (empty_storage\<lparr>getFails := True, setFails := True, removeFails := True\<rparr>) = Inr st')
   \<and> savePersisted \<lparr>term_p = ''cat'', items_p = [], savedAt = 1000\<rparr>
        (empty_storage\<lparr>getFails := True, setFails := True, removeFails := True\<rparr>)
      = Inr (empty_storage\<lparr>getFails := True, setFails := True, removeFails := True\<rparr>)
   \<and> (\<exists>st'. clearPersisted
        (empty_storage\<lparr>getFails := True, setFails := True, removeFails := True\<rparr>) = Inr st')
   \<and> clearPersisted (empty_storage\<lparr>getFails := True, setFails := True, removeFails := True\<rparr>)
      = Inr (empty_storage\<lparr>getFails := True, setFails := True, removeFails := True\<rparr>)
   \<and> (\<exists>st' r. loadPersisted (\<lambda>z. NaN) 1000
        (empty_storage\<lparr>getFails := True, setFails := True, removeFails := True\<rparr>) = Inr (st', r))
   \<and> loadPersisted (\<lambda>z. NaN) 1000
        (empty_storage\<lparr>getFails := True, setFails := True, removeFails := True\<rparr>)
      = Inr (empty_storage\<lparr>getFails := True, setFails := True, removeFails := True\<rparr>, None)
   \<and> (\<exists>w1 w2. run (config_of default_opts) fresh_widget
          [(1, Debounced ''cat''), (2, Response 0 (Inr cat_response)), (3, KeyDown ArrowDown),
           (4, KeyDown Enter), (5, Debounced [])] = Inr w1
        \<and> run (config_of default_opts)
            (fresh_widget\<lparr>store :=
               empty_storage\<lparr>getFails := True, setFails := True, removeFails := True\<rparr>\<rparr>)
          [(1, Debounced ''cat''), (2, Response 0 (Inr cat_response)), (3, KeyDown ArrowDown),
           (4, KeyDown Enter), (5, Debounced [])] = Inr w2
        \<and> in_memory w1 = in_memory w2)
   \<and> (\<exists>w1 w2. bindWikipediaAutosuggest (\<lambda>z. NaN) default_opts 1000 []
          (empty_storage\<lparr>getFails := True, setFails := True, removeFails := True\<rparr>) = Inr w1
        \<and> bindWikipediaAutosuggest (\<lambda>z. NaN) default_opts 1000 [] empty_storage = Inr w2
        \<and> in_memory w1 = in_memory w2)"
proof -
  let ?bad = "empty_storage\<lparr>getFails := True, setFails := True, removeFails := True\<rparr>"
  have flags: "getFails ?bad" "setFails ?bad" "removeFails ?bad" by simp_all
  from storage_failures_swallowed [of "\<lparr>term_p = ''cat'', items_p = [], savedAt = 1000\<rparr>" ?bad
      "\<lambda>z. NaN" 1000 "config_of default_opts" fresh_widget
      "[(1, Debounced ''cat''), (2, Response 0 (Inr cat_response)), (3, KeyDown ArrowDown),
        (4, KeyDown Enter), (5, Debounced [])]" default_opts "[]"] flags
  show ?thesis by simp
qed

section \<open>Persisting and reloading\<close>

lemma subscriber_Done:
  "xs \<noteq> [] \<Longrightarrow> \<not> setFails (store w) \<Longrightarrow>
   subscriber c now (Done s xs) w =
     Inr (w\<lparr>lastState := Done s xs, activeIndex := - 1,
            store := (store w)\<lparr>entries := (entries (store w))
              (STORAGE_KEY := Some (JSON_stringify \<lparr>term_p = s, items_p = xs, savedAt = now\<rparr>))\<rparr>\<rparr>)"
  by (simp add: subscriber_def Let_def savePersisted_result)

text \<open>
  C7. When the state \<open>Done s xs\<close> with non-empty \<open>xs\<close> is emitted at time \<open>now\<close>
  on a working store, the store holds the snapshot of \<open>s\<close>, \<open>xs\<close> and \<open>now\<close>;
  reading it back within the retention window returns a snapshot whose term is \<open>s\<close>
  and whose items are \<open>xs\<close>, and a widget bound then starts in \<open>Done s xs\<close>.
\<close>

theorem persist_then_reload:
  assumes "\<not> setFails (store w)" and "\<not> getFails (store w)" and "xs \<noteq> []"
    and "now' - now \<le> PERSIST_TTL_MS"
  shows "\<exists>w1. subscriber c now (Done s xs) w = Inr w1
           \<and> entries (store w1) STORAGE_KEY =
                Some (JSON_stringify \<lparr>term_p = s, items_p = xs, savedAt = now\<rparr>)
           \<and> (\<exists>v. loadPersisted s2n now' (store w1) = Inr (store w1, Some v)
                 \<and> restored_term v = s \<and> restored_items v = xs)
           \<and> (\<exists>w2. bindWikipediaAutosuggest s2n os now' typed (store w1) = Inr w2
                 \<and> lastState w2 = Done s xs)"
proof -
  let ?v = "JObj [(''term'', JStr s), (''items'', JItems xs), (''savedAt'', JNum now)]"
  let ?st = "(store w)\<lparr>entries := (entries (store w))(STORAGE_KEY := Some (Serialized ?v))\<rparr>"
  let ?w1 = "w\<lparr>lastState := Done s xs, activeIndex := - 1, store := ?st\<rparr>"
  have sub: "subscriber c now (Done s xs) w = Inr ?w1"
    using subscriber_Done [OF assms(3,1)] by (simp add: JSON_stringify_def)
  have g: "\<not> getFails ?st" using assms(2) by simp
  have e: "entries ?st STORAGE_KEY = Some (Serialized ?v)" by simp
  have load: "loadPersisted s2n now' ?st = Inr (?st, Some ?v)"
    using loadPersisted_checked [OF g e, of s s2n now'] assms(4) by simp
  have "case Some ?v of None \<Rightarrow> True
        | Some v \<Rightarrow> renderSuggestions (get_prop v ''items'') = Inr ()"
    by simp
  from bind_result [OF load this, of os typed]
  have "\<exists>w2. bindWikipediaAutosuggest s2n os now' typed ?st = Inr w2 \<and> lastState w2 = Done s xs"
    by (auto simp: restored_term_def restored_items_def)
  with load have "loadPersisted s2n now' ?st = Inr (?st, Some ?v)
     \<and> (\<exists>w2. bindWikipediaAutosuggest s2n os now' typed ?st = Inr w2 \<and> lastState w2 = Done s xs)"
    by simp
  then show ?thesis
    using sub by (simp add: JSON_stringify_def restored_term_def restored_items_def)
qed

theorem persist_then_reload_witness:
  "\<exists>w1. subscriber (config_of default_opts) 1000
          (Done ''cat'' [\<lparr>title = ''Cat'', description = None, url = Some ''https://x/Cat''\<rparr>])
          fresh_widget = Inr w1
      \<and> entries (store w1) STORAGE_KEY =
           Some (JSON_stringify \<lparr>term_p = ''cat'',
             items_p = [\<lparr>title = ''Cat'', description = None, url = Some ''https://x/Cat''\<rparr>],
             savedAt = 1000\<rparr>)
      \<and> (\<exists>v. loadPersisted (\<lambda>z. NaN) 2000 (store w1) = Inr (store w1, Some v)
            \<and> restored_term v = ''cat''
            \<and> restored_items v =
                 [\<lparr>title = ''Cat'', description = None, url = Some ''https://x/Cat''\<rparr>])
      \<and> (\<exists>w2. bindWikipediaAutosuggest (\<lambda>z. NaN) default_opts 2000 [] (store w1) = Inr w2
            \<and> lastState w2 =
                 Done ''cat'' [\<lparr>title = ''Cat'', description = None, url = Some ''https://x/Cat''\<rparr>])"
proof -
  have s: "\<not> setFails (store fresh_widget)" by (simp add: fresh_widget_def empty_storage_def)
  have g: "\<not> getFails (store fresh_widget)" by (simp add: fresh_widget_def empty_storage_def)
  have n: "[\<lparr>title = ''Cat'', description = None, url = Some ''https://x/Cat''\<rparr>] \<noteq> []" by simp
  have t: "(2000::int) - 1000 \<le> PERSIST_TTL_MS" by (simp add: PERSIST_TTL_MS_def)
  show ?thesis by (rule persist_then_reload [OF s g n t])
qed

section \<open>A snapshot without a usable time stamp\<close>

text \<open>
  C10, as the code has it. The read checks only that \<open>term\<close> is a string and
  \<open>items\<close> an array. When \<open>savedAt\<close> is absent, or is a value that converts to
  \<^verbatim>\<open>NaN\<close> (an object without an own \<^verbatim>\<open>toString\<close>, a non-empty array, a string that
  is no number), the comparison with the retention window is false whatever the time, and
  the record is returned: it never expires.
\<close>

theorem missing_savedAt_never_expires:
  assumes "\<not> getFails st" and "entries st STORAGE_KEY = Some (Serialized v)"
    and "get_prop v ''term'' = Some (JStr s)" and "isArray (get_prop v ''items'')"
    and "ToNumber s2n (get_prop v ''savedAt'') = Inr NaN"
  shows "loadPersisted s2n now st = Inr (st, Some v)
    \<and> ToNumber s2n None = Inr NaN
    \<and> (\<forall>kvs. map_of kvs ''toString'' = None \<longrightarrow> ToNumber s2n (Some (JObj kvs)) = Inr NaN)
    \<and> (\<forall>ys. ys \<noteq> [] \<longrightarrow> ToNumber s2n (Some (JItems ys)) = Inr NaN)
    \<and> (\<forall>z. s2n z = NaN \<longrightarrow> ToNumber s2n (Some (JStr z)) = Inr NaN)"
  using loadPersisted_checked [OF assms(1-4), of s2n now] assms(5) by simp

theorem missing_savedAt_never_expires_witness:
  "loadPersisted (\<lambda>z. NaN) 1700000000000
     (empty_storage\<lparr>entries := (entries empty_storage)(STORAGE_KEY :=
        Some (Serialized (JObj [(''term'', JStr ''cat''),
          (''items'', JItems [\<lparr>title = ''Cat'', description = None, url = Some ''https://x/Cat''\<rparr>])])))\<rparr>)
   = Inr (empty_storage\<lparr>entries := (entries empty_storage)(STORAGE_KEY :=
        Some (Serialized (JObj [(''term'', JStr ''cat''),
          (''items'', JItems [\<lparr>title = ''Cat'', description = None, url = Some ''https://x/Cat''\<rparr>])])))\<rparr>,
      Some (JObj [(''term'', JStr ''cat''),
          (''items'', JItems [\<lparr>title = ''Cat'', description = None, url = Some ''https://x/Cat''\<rparr>])]))"
proof -
  let ?xs = "[\<lparr>title = ''Cat'', description = None, url = Some ''https://x/Cat''\<rparr>]"
  let ?v = "JObj [(''term'', JStr ''cat''), (''items'', JItems ?xs)]"
  let ?st = "empty_storage\<lparr>entries := (entries empty_storage)(STORAGE_KEY := Some (Serialized ?v))\<rparr>"
  have g: "\<not> getFails ?st" by (simp add: empty_storage_def)
  have e: "entries ?st STORAGE_KEY = Some (Serialized ?v)" by simp
  have t: "get_prop ?v ''term'' = Some (JStr ''cat'')" by simp
  have i: "isArray (get_prop ?v ''items'')" by simp
  have s: "ToNumber (\<lambda>z. NaN) (get_prop ?v ''savedAt'') = Inr NaN" by simp
  from missing_savedAt_never_expires [OF g e t i s, of 1700000000000]
  show ?thesis by simp
qed

text \<open>
  Not every \<open>savedAt\<close> that is not a number converts to \<^verbatim>\<open>NaN\<close>: \<^verbatim>\<open>null\<close>
  converts to 0, so a record saved with \<^verbatim>\<open>savedAt: null\<close> is older than the window
  at any present-day time, and the read removes it and returns nothing.
\<close>

theorem null_savedAt_counterexample:
  "loadPersisted (\<lambda>z. NaN) 1700000000000
     \<lparr>entries = (\<lambda>k. None)(STORAGE_KEY :=
        Some (Serialized (JObj [(''term'', JStr ''cat''),
          (''items'', JItems [\<lparr>title = ''Cat'', description = None, url = Some ''https://x/Cat''\<rparr>]),
          (''savedAt'', JNull)]))),
      getFails = False, setFails = False, removeFails = False\<rparr>
   = Inr (\<lparr>entries = (\<lambda>k. None), getFails = False, setFails = False, removeFails = False\<rparr>, None)"
  by (simp add: loadPersisted_def getItem_def JSON_parse_def removeItem_def PERSIST_TTL_MS_def)

end
